theory Spec2Isabelle
  imports Main "HOL-Library.Sublist"
begin

section \<open>The job harvesting script \<open>fetch-linkedin-jobs.ts\<close>\<close>

text \<open>
  A shallow embedding of \<^verbatim>\<open>job-search-assistant/scripts/fetch-linkedin-jobs.ts\<close>.
  Strings are lists of \<^typ>\<open>char\<close> and the model covers ASCII text: case conversion
  touches the letters A-Z and a-z only, and white space is tab, line feed, vertical tab, form
  feed, carriage return and blank. Promises are run to completion in program order, the
  network and the clock are functions of an environment record, and every effect of the
  script (requests issued, delays awaited, the \<^verbatim>\<open>JOBS\<close> map) is a field of an explicit
  world record. Console output is not modelled.
\<close>

subsection \<open>String primitives of the platform\<close>

definition isUpper :: "char \<Rightarrow> bool" where
  "isUpper c = (65 \<le> (of_char c :: nat) \<and> (of_char c :: nat) \<le> 90)"

definition isLower :: "char \<Rightarrow> bool" where
  "isLower c = (97 \<le> (of_char c :: nat) \<and> (of_char c :: nat) \<le> 122)"

definition isDigit :: "char \<Rightarrow> bool" where
  "isDigit c = (48 \<le> (of_char c :: nat) \<and> (of_char c :: nat) \<le> 57)"

definition isSpace :: "char \<Rightarrow> bool" where
  "isSpace c = ((of_char c :: nat) \<in> {9, 10, 11, 12, 13, 32})"

definition isWordChar :: "char \<Rightarrow> bool" where
  "isWordChar c = (isUpper c \<or> isLower c \<or> isDigit c \<or> c = CHR ''_'')"

definition lowerChar :: "char \<Rightarrow> char" where
  "lowerChar c = (if isUpper c then char_of ((of_char c :: nat) + 32) else c)"

definition upperChar :: "char \<Rightarrow> char" where
  "upperChar c = (if isLower c then char_of ((of_char c :: nat) - 32) else c)"

definition toLowerCase :: "string \<Rightarrow> string" where
  "toLowerCase s = map lowerChar s"

text \<open>\<^verbatim>\<open>s.includes(t)\<close>, \<^verbatim>\<open>s.startsWith(t)\<close> and \<^verbatim>\<open>s.indexOf(t)\<close> (\<open>-1\<close> when absent).\<close>

fun str_includes :: "string \<Rightarrow> string \<Rightarrow> bool" where
  "str_includes [] t = (t = [])"
| "str_includes (c # cs) t = (prefix t (c # cs) \<or> str_includes cs t)"

definition startsWith :: "string \<Rightarrow> string \<Rightarrow> bool" where
  "startsWith s t = prefix t s"

fun indexOfFrom :: "string \<Rightarrow> string \<Rightarrow> int \<Rightarrow> int" where
  "indexOfFrom [] t i = (if t = [] then i else -1)"
| "indexOfFrom (c # cs) t i = (if prefix t (c # cs) then i else indexOfFrom cs t (i + 1))"

definition indexOf :: "string \<Rightarrow> string \<Rightarrow> int" where
  "indexOf s t = indexOfFrom s t 0"

text \<open>\<^verbatim>\<open>s.slice(a, b)\<close> for indices that are not negative, and \<^verbatim>\<open>s.trim()\<close>.\<close>

definition slice :: "string \<Rightarrow> int \<Rightarrow> int \<Rightarrow> string" where
  "slice s a b = take (nat (b - a)) (drop (nat a) s)"

definition trim :: "string \<Rightarrow> string" where
  "trim s = rev (dropWhile isSpace (rev (dropWhile isSpace s)))"

text \<open>
  \<^verbatim>\<open>s.split(sep)\<close> with a string separator: the pieces between the occurrences of the
  separator, found from the left and not overlapping; an empty separator gives the single
  characters. The result of a split by a separator that is not empty is never empty.
\<close>

function split_go :: "string \<Rightarrow> string \<Rightarrow> string \<Rightarrow> string list" where
  "split_go sep cur [] = [rev cur]"
| "split_go sep cur (c # cs) =
     (if sep \<noteq> [] \<and> prefix sep (c # cs)
      then rev cur # split_go sep [] (drop (length sep) (c # cs))
      else split_go sep (c # cur) cs)"
  by pat_completeness auto
termination
  by (relation "measure (\<lambda>(sep, cur, s). length s)") (auto simp: neq_Nil_conv)

definition split :: "string \<Rightarrow> string \<Rightarrow> string list" where
  "split sep s = (if sep = [] then map (\<lambda>c. [c]) s else split_go sep [] s)"

text \<open>\<^verbatim>\<open>xs.pop()\<close> as a value: the last element, \<^verbatim>\<open>undefined\<close> on the empty array.\<close>

definition pop :: "'a list \<Rightarrow> 'a option" where
  "pop xs = (if xs = [] then None else Some (last xs))"

fun join :: "string \<Rightarrow> string list \<Rightarrow> string" where
  "join sep [] = []"
| "join sep [x] = x"
| "join sep (x # y # ys) = x @ sep @ join sep (y # ys)"

text \<open>\<^verbatim>\<open>s.replace(/\s+/g, " ")\<close>: every maximal run of white space becomes one blank.\<close>

function collapseSpaces :: "string \<Rightarrow> string" where
  "collapseSpaces [] = []"
| "collapseSpaces (c # cs) =
     (if isSpace c then CHR '' '' # collapseSpaces (dropWhile isSpace cs)
      else c # collapseSpaces cs)"
  by pat_completeness auto
termination
  by (relation "measure length") (auto simp: length_dropWhile_le less_Suc_eq_le)

text \<open>\<^verbatim>\<open>n.toString()\<close> for a natural number.\<close>

function natToString :: "nat \<Rightarrow> string" where
  "natToString n =
     (if n < 10 then [char_of (48 + n)]
      else natToString (n div 10) @ [char_of (48 + n mod 10)])"
  by pat_completeness auto
termination
  by (relation "measure id") auto

text \<open>
  \<^verbatim>\<open>new URLSearchParams({...}).toString()\<close>: the form-urlencoded serialisation. Letters,
  digits and \<^verbatim>\<open>* - . _\<close> stay, a blank becomes \<^verbatim>\<open>+\<close>, any other byte becomes
  \<^verbatim>\<open>%XX\<close> in upper-case hexadecimal.
\<close>

definition hexDigit :: "nat \<Rightarrow> char" where
  "hexDigit d = (if d < 10 then char_of (48 + d) else char_of (55 + d))"

definition formEncodeChar :: "char \<Rightarrow> string" where
  "formEncodeChar c =
     (if isUpper c \<or> isLower c \<or> isDigit c \<or> c \<in> set ''*-._'' then [c]
      else if c = CHR '' '' then ''+''
      else [CHR ''%'', hexDigit ((of_char c :: nat) div 16), hexDigit ((of_char c :: nat) mod 16)])"

definition formEncode :: "string \<Rightarrow> string" where
  "formEncode s = concat (map formEncodeChar s)"

definition urlSearchParams :: "(string \<times> string) list \<Rightarrow> string" where
  "urlSearchParams ps = join ''&'' (map (\<lambda>(k, v). formEncode k @ ''='' @ formEncode v) ps)"

subsection \<open>Regular expressions\<close>

text \<open>
  The patterns of the script use literals, character classes, sequence, alternation, the
  greedy quantifiers, groups, \<^verbatim>\<open>\b\<close> and \<^verbatim>\<open>$\<close>. A matcher state is the character
  before the current position, the rest of the input and the groups closed so far. \<open>rxm\<close>
  returns every way the pattern can match at the current position, in the order in which a
  backtracking matcher tries them: the left alternative first, one more iteration of a
  quantifier before stopping. An iteration of a quantifier that consumes nothing is
  not taken.
\<close>

datatype rx = Eps | Cls "char \<Rightarrow> bool" | Seq rx rx | Alt rx rx | Star rx
  | Grp nat rx | WordB | Eoi

type_synonym mstate = "char option \<times> string \<times> (nat \<times> string) list"

function rxm :: "rx \<Rightarrow> mstate \<Rightarrow> mstate list" where
  "rxm Eps m = [m]"
| "rxm (Cls P) (p, s, caps) =
     (case s of [] \<Rightarrow> [] | c # cs \<Rightarrow> if P c then [(Some c, cs, caps)] else [])"
| "rxm (Seq a b) m = concat (map (rxm b) (rxm a m))"
| "rxm (Alt a b) m = rxm a m @ rxm b m"
| "rxm (Star a) (p, s, caps) =
     concat (map (\<lambda>m'. if length (fst (snd m')) < length s then rxm (Star a) m' else [])
                 (rxm a (p, s, caps))) @ [(p, s, caps)]"
| "rxm (Grp n a) (p, s, caps) =
     map (\<lambda>m'. (fst m', fst (snd m'),
                 (n, take (length s - length (fst (snd m'))) s) # snd (snd m')))
         (rxm a (p, s, caps))"
| "rxm WordB (p, s, caps) =
     (if (case p of None \<Rightarrow> False | Some c \<Rightarrow> isWordChar c)
         \<noteq> (case s of [] \<Rightarrow> False | c # _ \<Rightarrow> isWordChar c)
      then [(p, s, caps)] else [])"
| "rxm Eoi (p, s, caps) = (if s = [] then [(p, s, caps)] else [])"
  by pat_completeness auto
termination
  by (relation "measures [\<lambda>(r, m). size r, \<lambda>(r, m). length (fst (snd m))]") auto

text \<open>
  A literal, a literal under the \<^verbatim>\<open>i\<close> flag (two ASCII characters are the same when
  their lower-case forms are), \<^verbatim>\<open>r+\<close>, \<^verbatim>\<open>r?\<close> and an alternation of several patterns.
\<close>

definition lit :: "string \<Rightarrow> rx" where
  "lit s = foldr (\<lambda>c r. Seq (Cls (\<lambda>d. d = c)) r) s Eps"

definition liti :: "string \<Rightarrow> rx" where
  "liti s = foldr (\<lambda>c r. Seq (Cls (\<lambda>d. lowerChar d = lowerChar c)) r) s Eps"

definition Plus :: "rx \<Rightarrow> rx" where
  "Plus r = Seq r (Star r)"

definition Opt :: "rx \<Rightarrow> rx" where
  "Opt r = Alt r Eps"

fun alts :: "rx list \<Rightarrow> rx" where
  "alts [] = Eps"
| "alts [r] = r"
| "alts (r # q # rs) = Alt r (alts (q # rs))"

fun seqs :: "rx list \<Rightarrow> rx" where
  "seqs [] = Eps"
| "seqs [r] = r"
| "seqs (r # q # rs) = Seq r (seqs (q # rs))"

text \<open>
  \<^verbatim>\<open>s.match(r)\<close> without the \<^verbatim>\<open>g\<close> flag: the first position from the left at which
  the pattern matches, and there the first way it does. The result is the matched text
  (\<^verbatim>\<open>m[0]\<close>) and the groups. \<^verbatim>\<open>r.test(s)\<close> asks whether there is a match.
\<close>

fun rx_search :: "rx \<Rightarrow> char option \<Rightarrow> string \<Rightarrow> (string \<times> (nat \<times> string) list) option" where
  "rx_search r p s =
     (case rxm r (p, s, []) of
        m # _ \<Rightarrow> Some (take (length s - length (fst (snd m))) s, snd (snd m))
      | [] \<Rightarrow> (case s of [] \<Rightarrow> None | c # cs \<Rightarrow> rx_search r (Some c) cs))"

definition rx_match :: "rx \<Rightarrow> string \<Rightarrow> (string \<times> (nat \<times> string) list) option" where
  "rx_match r s = rx_search r None s"

definition rx_test :: "rx \<Rightarrow> string \<Rightarrow> bool" where
  "rx_test r s = (rx_match r s \<noteq> None)"

text \<open>
  \<^verbatim>\<open>m[n]\<close> for a group of a successful match. In every pattern whose groups the script
  reads, each group takes part in every match; the empty string stands for a group
  that did not.
\<close>

definition group :: "(string \<times> (nat \<times> string) list) \<Rightarrow> nat \<Rightarrow> string" where
  "group m n = (case map_of (snd m) n of Some g \<Rightarrow> g | None \<Rightarrow> [])"

subsection \<open>Data model\<close>

datatype VisaStatus = Yes | No | NotMentioned

text \<open>The field \<^verbatim>\<open>keywords\<close> carries a prime: the plain word is reserved.\<close>

record SearchConfig =
  country :: string
  locationParam :: string
  keywords' :: string
  label :: string
  maxJobs :: nat

record RawJob =
  title :: string
  company :: string
  jobUrl :: string
  companyUrl :: "string option"
  locationLine :: string
  postedText :: "string option"
  metaTags :: "string list"
  countryGuess :: string
  search :: SearchConfig

record Visa =
  status :: VisaStatus
  evidence :: "string option"

text \<open>What \<^verbatim>\<open>detectVisa\<close> returns: the visa fields and the detail text.\<close>

record VisaInfo = Visa +
  detailText :: string

record JobEntry =
  job_id :: string
  job_title :: string
  job_company :: string
  job_applyUrl :: string
  job_companyUrl :: "string option"
  job_location :: string
  job_country :: string
  job_posted :: string
  job_meta :: "string list"
  job_matchReasons :: "string list"
  job_visa :: Visa
  job_searchLabel :: string
  job_searchKeywords :: string
  job_source :: string
  job_fetchedAt :: string

definition SEARCHES :: "SearchConfig list" where
  "SEARCHES =
    [\<lparr>country = ''Belgium'', locationParam = ''Belgium'',
      keywords' = ''digital marketing'', label = ''Digital Marketing (Belgium)'', maxJobs = 4\<rparr>,
     \<lparr>country = ''Belgium'', locationParam = ''Brussels, Brussels Region, Belgium'',
      keywords' = ''social media manager'', label = ''Social Media Manager (Belgium)'',
      maxJobs = 4\<rparr>,
     \<lparr>country = ''Ireland'', locationParam = ''Dublin, County Dublin, Ireland'',
      keywords' = ''digital marketing manager'', label = ''Digital Marketing Manager (Ireland)'',
      maxJobs = 4\<rparr>,
     \<lparr>country = ''Ireland'', locationParam = ''Dublin, County Dublin, Ireland'',
      keywords' = ''social media specialist'', label = ''Social Media Specialist (Ireland)'',
      maxJobs = 4\<rparr>,
     \<lparr>country = ''Italy'', locationParam = ''Milan, Lombardy, Italy'',
      keywords' = ''digital marketing'', label = ''Digital Marketing (Italy)'', maxJobs = 5\<rparr>,
     \<lparr>country = ''Italy'', locationParam = ''Rome, Lazio, Italy'',
      keywords' = ''content creator'', label = ''Content Creator (Italy)'', maxJobs = 5\<rparr>,
     \<lparr>country = ''Netherlands'', locationParam = ''Netherlands'',
      keywords' = ''digital marketing'', label = ''Digital Marketing (Netherlands)'',
      maxJobs = 6\<rparr>,
     \<lparr>country = ''Netherlands'', locationParam = ''Amsterdam, North Holland, Netherlands'',
      keywords' = ''content marketer'', label = ''Content Marketer (Netherlands)'',
      maxJobs = 4\<rparr>,
     \<lparr>country = ''United Kingdom'', locationParam = ''United Kingdom'',
      keywords' = ''digital marketing executive'', label = ''Digital Marketing Executive (UK)'',
      maxJobs = 6\<rparr>,
     \<lparr>country = ''United Kingdom'', locationParam = ''United Kingdom'',
      keywords' = ''content creator social media'',
      label = ''Content Creator / Social Media (UK)'', maxJobs = 5\<rparr>]"

definition MAX_START :: nat where
  "MAX_START = 50"

subsection \<open>Environment and world\<close>

text \<open>
  An HTTP response as the script reads it: \<^verbatim>\<open>status\<close>, \<^verbatim>\<open>statusText\<close> and the body
  that \<^verbatim>\<open>text()\<close> yields; \<^verbatim>\<open>ok\<close> is a status from 200 to 299. The script throws plain
  \<^verbatim>\<open>Error\<close> values; the constructors name the three throw sites: the two messages
  of \<^verbatim>\<open>fetchText\<close> with the values they interpolate, and a rejected \<^verbatim>\<open>fetch\<close>.
\<close>

record Response =
  response_status :: nat
  response_statusText :: string
  response_text :: string

definition response_ok :: "Response \<Rightarrow> bool" where
  "response_ok r = (200 \<le> response_status r \<and> response_status r \<le> 299)"

datatype Error =
    RetriesExhausted string
  | HttpError string nat string
  | NetworkFailure

text \<open>
  The environment answers the platform calls whose results the script cannot compute:
  \<open>fetch env url n\<close> is the outcome of requesting \<open>url\<close> when \<open>n\<close> requests have been
  issued before, \<open>clock env n\<close> is what \<^verbatim>\<open>new Date().toISOString()\<close> returns on the read
  number \<open>n\<close>, and \<open>localeCompare env a b\<close> is \<^verbatim>\<open>a.localeCompare(b)\<close>.
\<close>

record Env =
  fetch :: "string \<Rightarrow> nat \<Rightarrow> Error + Response"
  clock :: "nat \<Rightarrow> string"
  localeCompare :: "string \<Rightarrow> string \<Rightarrow> int"

text \<open>
  The world holds what the script changes: the map \<^verbatim>\<open>JOBS\<close> (its entries in insertion
  order, which is the order of \<^verbatim>\<open>JOBS.values()\<close>), the URLs requested so far, the
  delays awaited so far in milliseconds, and the number of clock reads.
\<close>

record World =
  JOBS :: "(string \<times> JobEntry) list"
  requests :: "string list"
  delays :: "nat list"
  clockReads :: nat

definition initialWorld :: World where
  "initialWorld = \<lparr>JOBS = [], requests = [], delays = [], clockReads = 0\<rparr>"

definition delay :: "nat \<Rightarrow> World \<Rightarrow> World" where
  "delay ms w = w\<lparr>delays := delays w @ [ms]\<rparr>"

definition readClock :: "Env \<Rightarrow> World \<Rightarrow> string \<times> World" where
  "readClock env w = (clock env (clockReads w), w\<lparr>clockReads := Suc (clockReads w)\<rparr>)"

text \<open>\<^verbatim>\<open>JOBS.has(k)\<close>, \<^verbatim>\<open>JOBS.set(k, v)\<close> (a present key keeps its place) and \<^verbatim>\<open>JOBS.size\<close>.\<close>

definition mapHas :: "(string \<times> 'v) list \<Rightarrow> string \<Rightarrow> bool" where
  "mapHas m k = (k \<in> set (map fst m))"

fun mapSet :: "(string \<times> 'v) list \<Rightarrow> string \<Rightarrow> 'v \<Rightarrow> (string \<times> 'v) list" where
  "mapSet [] k v = [(k, v)]"
| "mapSet ((k', v') # m) k v = (if k' = k then (k, v) # m else (k', v') # mapSet m k v)"

definition mapSize :: "(string \<times> 'v) list \<Rightarrow> nat" where
  "mapSize m = length m"

subsection \<open>\<^verbatim>\<open>fetchText\<close>\<close>

definition rateLimitBody :: "string \<Rightarrow> bool" where
  "rateLimitBody payload =
     (rx_test (liti ''HTTP ERROR 429'') payload \<or> rx_test (liti ''Too Many Requests'') payload)"

function fetchText :: "Env \<Rightarrow> string \<Rightarrow> nat \<Rightarrow> World \<Rightarrow> (Error + string) \<times> World" where
  "fetchText env url attempt w =
     (let w1 = w\<lparr>requests := requests w @ [url]\<rparr> in
      case fetch env url (length (requests w)) of
        Inl e \<Rightarrow> (Inl e, w1)
      | Inr response \<Rightarrow>
          if response_status response = 429 then
            if attempt > 4 then (Inl (RetriesExhausted url), w1)
            else fetchText env url (attempt + 1) (delay (3000 * attempt) w1)
          else
            let payload = response_text response in
            if response_status response = 429 \<or> rateLimitBody payload then
              if attempt > 4 then (Inl (RetriesExhausted url), w1)
              else fetchText env url (attempt + 1) (delay (4000 * attempt) w1)
            else if \<not> response_ok response then
              (Inl (HttpError url (response_status response) (response_statusText response)), w1)
            else (Inr payload, w1))"
  by pat_completeness auto
termination
  by (relation "measure (\<lambda>(env, url, attempt, w). 5 - attempt)") auto

subsection \<open>\<^verbatim>\<open>parseMarkdown\<close> and \<^verbatim>\<open>inferCountry\<close>\<close>

text \<open>
  The patterns, in the order of the source:
  \<^verbatim>\<open>/\*   \[([^\]]+)\]\((https?:\/\/[^\)]+)\)/\<close>,
  \<^verbatim>\<open>/#### \[([^\]]+)\]\((https?:\/\/[^\)]+)\)/\<close>,
  \<^verbatim>\<open>/\n\n ([^\n]+)\n/\<close>,
  \<^verbatim>\<open>/\b(day|hour|week|month)s?\s+ago\b/i\<close>,
  \<^verbatim>\<open>/\b(today|yesterday)\b/i\<close> and
  \<^verbatim>\<open>/, *([A-Za-z ]+)$/\<close>.
\<close>

definition linkRx :: "string \<Rightarrow> rx" where
  "linkRx lead =
     seqs [lit lead, Grp 1 (Plus (Cls (\<lambda>c. c \<noteq> CHR '']''))), lit '']('',
           Grp 2 (seqs [lit ''http'', Opt (lit ''s''), lit ''://'',
                        Plus (Cls (\<lambda>c. c \<noteq> CHR '')''))]),
           lit '')'']"

definition titleRx :: rx where
  "titleRx = linkRx ''*   [''"

definition companyRx :: rx where
  "companyRx = linkRx ''#### [''"

definition metaRx :: rx where
  "metaRx = seqs [lit ''\<newline>\<newline> '', Grp 1 (Plus (Cls (\<lambda>c. c \<noteq> CHR ''\<newline>''))),
                  lit ''\<newline>'']"

definition agoRx :: rx where
  "agoRx = seqs [WordB, Grp 1 (alts [liti ''day'', liti ''hour'', liti ''week'', liti ''month'']),
                 Opt (liti ''s''), Plus (Cls isSpace), liti ''ago'', WordB]"

definition todayRx :: rx where
  "todayRx = seqs [WordB, Grp 1 (alts [liti ''today'', liti ''yesterday'']), WordB]"

definition commaRx :: rx where
  "commaRx = seqs [lit '','', Star (lit '' ''),
                   Grp 1 (Plus (Cls (\<lambda>c. isUpper c \<or> isLower c \<or> c = CHR '' ''))), Eoi]"

definition countries :: "string list" where
  "countries = [''united kingdom'', ''netherlands'', ''belgium'', ''ireland'', ''italy'',
                ''tunisia'', ''united states'', ''france'', ''germany'']"

definition capitalize :: "string \<Rightarrow> string" where
  "capitalize word = (case word of [] \<Rightarrow> [] | c # cs \<Rightarrow> upperChar c # cs)"

text \<open>
  \<^verbatim>\<open>location.split(",").pop()!\<close> reads the last piece of a split, which always has
  one (\<open>split_not_Nil\<close> below).
\<close>

definition inferCountry :: "string \<Rightarrow> string option" where
  "inferCountry location =
     (let lower = toLowerCase location in
      case find (\<lambda>name. str_includes lower name) countries of
        Some name \<Rightarrow> Some (join '' '' (map capitalize (split '' '' name)))
      | None \<Rightarrow>
          if rx_test commaRx location then Some (trim (last (split '','' location)))
          else None)"

text \<open>
  The body of the loop over the blocks: \<open>None\<close> where the source says \<^verbatim>\<open>continue\<close>,
  the listing pushed to \<^verbatim>\<open>results\<close> otherwise. \<^verbatim>\<open>metaParts.shift()\<close> removes the
  first part, so the tags and the search for the posting age see the remaining ones.
\<close>

definition parseBlock :: "SearchConfig \<Rightarrow> string \<Rightarrow> RawJob option" where
  "parseBlock srch block =
     (case rx_match titleRx block of
        None \<Rightarrow> None
      | Some titleMatch \<Rightarrow>
          let url = group titleMatch 2 in
          if \<not> str_includes url ''linkedin.com/jobs/view'' then None
          else
            (case rx_match companyRx block of
              None \<Rightarrow> None
            | Some companyMatch \<Rightarrow>
                let rawMeta = (case rx_match metaRx block of
                                 Some metaMatch \<Rightarrow> trim (group metaMatch 1)
                               | None \<Rightarrow> []);
                    parts = filter (\<lambda>item. item \<noteq> [])
                              (map (\<lambda>item. trim (collapseSpaces item)) (split ''  '' rawMeta));
                    location = (case parts of [] \<Rightarrow> country srch | first # _ \<Rightarrow> first);
                    metaParts = tl parts;
                    posted = (case find (rx_test agoRx) metaParts of
                                Some item \<Rightarrow> item
                              | None \<Rightarrow>
                                  (case find (rx_test todayRx) metaParts of
                                     Some item \<Rightarrow> item
                                   | None \<Rightarrow> []))
                in Some \<lparr>title = trim (group titleMatch 1),
                         company = trim (group companyMatch 1),
                         jobUrl = url,
                         companyUrl = Some (group companyMatch 2),
                         locationLine = location,
                         postedText = Some posted,
                         metaTags = metaParts,
                         countryGuess = (case inferCountry location of
                                           Some c \<Rightarrow> c
                                         | None \<Rightarrow> country srch),
                         search = srch\<rparr>))"

definition parseMarkdown :: "string \<Rightarrow> SearchConfig \<Rightarrow> RawJob list" where
  "parseMarkdown markdown srch =
     (case pop (split ''Markdown Content:'' markdown) of
        None \<Rightarrow> []
      | Some cleaned \<Rightarrow>
          if cleaned = [] then []
          else
            let blocks = filter (\<lambda>block. startsWith block ''*'')
                           (map (\<lambda>(index, block).
                                   if index = 0 then trim block else ''*   '' @ trim block)
                                (enumerate 0 (split ''\<newline>*   '' cleaned)))
            in List.map_filter (parseBlock srch) blocks)"

subsection \<open>Classification rules\<close>

definition isRemote :: "string list \<Rightarrow> string \<Rightarrow> bool" where
  "isRemote meta location =
     (let text = toLowerCase (location @ '' '' @ join '' '' meta) in
      str_includes text ''remote'' \<or> str_includes text ''work from home'')"

definition required :: "string list" where
  "required = [''marketing'', ''content'', ''social'', ''video'', ''digital'', ''creative'',
               ''communications'', ''community'', ''seo'', ''brand'']"

definition excluded :: "string list" where
  "excluded = [''engineer'', ''engineering'', ''developer'', ''scientist'', ''medical writer'',
               ''nurse'', ''physician'', ''chemist'']"

definition isRelevantTitle :: "string \<Rightarrow> bool" where
  "isRelevantTitle ttl =
     (let normalized = toLowerCase ttl in
      if \<not> list_ex (\<lambda>keyword. str_includes normalized keyword) required then False
      else if list_ex (\<lambda>keyword. str_includes normalized keyword) excluded then False
      else True)"

subsection \<open>\<^verbatim>\<open>detectVisa\<close> and \<^verbatim>\<open>extractEvidence\<close>\<close>

definition positiveRx :: rx where
  "positiveRx =
     Grp 1 (alts [Seq (lit ''visa '')
                      (Grp 2 (alts [lit ''sponsorship'', lit ''support'', lit ''assistance'',
                                    lit ''provided'', lit ''relocation''])),
                  lit ''work permit support'',
                  lit ''sponsor your visa''])"

definition negativeRx :: rx where
  "negativeRx =
     Grp 1 (alts [lit ''no visa sponsorship'',
                  lit ''without sponsorship'',
                  seqs [lit ''must have '', Opt (lit ''eu ''), lit ''work permit''],
                  lit ''not provide sponsorship''])"

definition permitRx :: rx where
  "permitRx = Grp 1 (alts [lit ''work permit'', lit ''right to work''])"

definition extractEvidence :: "string \<Rightarrow> string \<Rightarrow> string option" where
  "extractEvidence text keyword =
     (let clean = collapseSpaces text;
          index = indexOf (toLowerCase clean) (toLowerCase keyword)
      in if index = -1 then None
         else
           let start = max 0 (index - 160);
               end' = min (int (length clean)) (index + 200)
           in Some (trim (slice clean start end')))"

text \<open>
  What \<^verbatim>\<open>detectVisa\<close> computes from the text that \<^verbatim>\<open>fetchText\<close> returned
  (the lines after the \<^verbatim>\<open>await\<close>).
\<close>

definition visaFromText :: "string \<Rightarrow> VisaInfo" where
  "visaFromText text =
     (let body = (case pop (split ''Markdown Content:'' text) of
                    Some b \<Rightarrow> b | None \<Rightarrow> text);
          lower = toLowerCase body
      in case rx_match positiveRx lower of
           Some positiveMatch \<Rightarrow>
             \<lparr>status = Yes, evidence = extractEvidence body (fst positiveMatch),
              detailText = body\<rparr>
         | None \<Rightarrow>
             (case rx_match negativeRx lower of
                Some negativeMatch \<Rightarrow>
                  \<lparr>status = No, evidence = extractEvidence body (fst negativeMatch),
                   detailText = body\<rparr>
              | None \<Rightarrow>
                  (case rx_match permitRx lower of
                     Some permitMatch \<Rightarrow>
                       \<lparr>status = NotMentioned,
                        evidence = extractEvidence body (fst permitMatch),
                        detailText = body\<rparr>
                   | None \<Rightarrow>
                       \<lparr>status = NotMentioned, evidence = None, detailText = body\<rparr>)))"

definition detectVisa :: "Env \<Rightarrow> string \<Rightarrow> World \<Rightarrow> (Error + VisaInfo) \<times> World" where
  "detectVisa env url w =
     (let proxyUrl = ''https://r.jina.ai/'' @ url in
      case fetchText env proxyUrl 1 w of
        (Inl e, w') \<Rightarrow> (Inl e, w')
      | (Inr text, w') \<Rightarrow> (Inr (visaFromText text), w'))"

subsection \<open>\<^verbatim>\<open>buildMatchReasons\<close>\<close>

definition skillRules :: "(string list \<times> string) list" where
  "skillRules =
    [([''social media'', ''social-media'', ''instagram'', ''tiktok'', ''facebook'',
       ''x (formerly twitter)'', ''community manager''],
      ''Direct social media and community management responsibilities''),
     ([''content creation'', ''content strategy'', ''copywriting'', ''storytelling'', ''blog'',
       ''newsletter''],
      ''High volume content creation and storytelling focus''),
     ([''video'', ''filming'', ''videography'', ''premiere pro'', ''after effects'',
       ''motion graphics''],
      ''Video production/editing skills explicitly requested''),
     ([''wordpress'', ''cms'', ''content management system''],
      ''WordPress / CMS publishing experience highlighted''),
     ([''seo'', ''search engine'', ''organic traffic'', ''keyword research''],
      ''SEO optimisation responsibilities included''),
     ([''campaign'', ''go-to-market'', ''marketing campaign'', ''campaign planning''],
      ''Owns campaign planning and execution''),
     ([''adobe'', ''photoshop'', ''illustrator'', ''lightroom'', ''graphic design''],
      ''Graphic design & Adobe Creative Suite skills required''),
     ([''video editing'', ''davinci resolve'', ''final cut''],
      ''Hands-on video editing deliverables''),
     ([''analytics'', ''google analytics'', ''reporting'', ''data driven''],
      ''Performance analytics & reporting responsibilities'')]"

text \<open>\<^verbatim>\<open>reasons.add(x)\<close> on a \<^verbatim>\<open>Set\<close>, kept in insertion order.\<close>

definition setAdd :: "string list \<Rightarrow> string \<Rightarrow> string list" where
  "setAdd reasons x = (if x \<in> set reasons then reasons else reasons @ [x])"

definition buildMatchReasons :: "RawJob \<Rightarrow> string \<Rightarrow> string list" where
  "buildMatchReasons raw detail =
     (let reasons = setAdd [] (''Matches '' @ label (search raw));
          corpus = toLowerCase (title raw @ '' '' @ detail)
      in fold (\<lambda>rule rs.
                 if list_ex (\<lambda>kw. str_includes corpus kw) (fst rule) then setAdd rs (snd rule)
                 else rs)
              skillRules reasons)"

subsection \<open>\<^verbatim>\<open>countByCountry\<close>, \<^verbatim>\<open>processSearch\<close> and \<^verbatim>\<open>main\<close>\<close>

text \<open>The loop of \<^verbatim>\<open>countByCountry\<close> over \<^verbatim>\<open>JOBS.values()\<close>, with its counter.\<close>

fun countLoop :: "string \<Rightarrow> JobEntry list \<Rightarrow> nat \<Rightarrow> nat" where
  "countLoop cname [] tot = tot"
| "countLoop cname (job # rest) tot =
     (if str_includes (toLowerCase (job_country job)) (toLowerCase cname)
      then countLoop cname rest (tot + 1)
      else countLoop cname rest tot)"

definition countByCountry :: "(string \<times> JobEntry) list \<Rightarrow> string \<Rightarrow> nat" where
  "countByCountry m cname = countLoop cname (map snd m) 0"

definition searchUrl :: "SearchConfig \<Rightarrow> nat \<Rightarrow> string" where
  "searchUrl srch start =
     ''https://r.jina.ai/https://www.linkedin.com/jobs-guest/jobs/api/seeMoreJobPostings/search?''
     @ urlSearchParams [(''keywords'', keywords' srch), (''location'', locationParam srch),
                        (''f_TPR'', ''r604800''), (''f_WT'', ''2''),
                        (''start'', natToString start)]"

text \<open>
  \<^verbatim>\<open>raw.jobUrl.split("?")[0]\<close>: the first piece of a split, which always has one
  (\<open>split_not_Nil\<close> below).
\<close>

definition canonicalUrl :: "string \<Rightarrow> string" where
  "canonicalUrl url = hd (split ''?'' url)"

text \<open>
  The end of the body of the loop over the listings, from the politeness delay to
  \<^verbatim>\<open>JOBS.set\<close>: what happens to a listing that no filter skipped. A failed
  \<^verbatim>\<open>detectVisa\<close> is caught here. \<open>makeEntry\<close> is the object literal
  \<^verbatim>\<open>const entry: JobEntry = {...}\<close>.
\<close>

definition makeEntry :: "RawJob \<Rightarrow> VisaInfo \<Rightarrow> string list \<Rightarrow> string \<Rightarrow> JobEntry" where
  "makeEntry raw visaInfo reasons now =
     \<lparr>job_id = canonicalUrl (jobUrl raw),
      job_title = title raw,
      job_company = company raw,
      job_applyUrl = canonicalUrl (jobUrl raw),
      job_companyUrl = companyUrl raw,
      job_location = locationLine raw,
      job_country = countryGuess raw,
      job_posted = (case postedText raw of
                      None \<Rightarrow> ''Recently posted''
                    | Some t \<Rightarrow> if t = [] then ''Recently posted'' else t),
      job_meta = metaTags raw,
      job_matchReasons = reasons,
      job_visa = \<lparr>status = status visaInfo, evidence = evidence visaInfo\<rparr>,
      job_searchLabel = label (search raw),
      job_searchKeywords = keywords' (search raw),
      job_source = ''LinkedIn'',
      job_fetchedAt = now\<rparr>"

definition addListing :: "Env \<Rightarrow> RawJob \<Rightarrow> World \<Rightarrow> World" where
  "addListing env raw w =
     (let (res, w2) = detectVisa env (jobUrl raw) (delay 800 w);
          visaInfo = (case res of
                        Inr v \<Rightarrow> v
                      | Inl e \<Rightarrow> \<lparr>status = NotMentioned, evidence = None, detailText = []\<rparr>);
          reasons = buildMatchReasons raw (detailText visaInfo);
          (now, w3) = readClock env w2;
          entry = makeEntry raw visaInfo reasons now
      in w3\<lparr>JOBS := mapSet (JOBS w3) (job_id entry) entry\<rparr>)"

text \<open>
  The loop over the listings of one page. The flag of the result says that the loop left
  \<^verbatim>\<open>processSearch\<close> by \<^verbatim>\<open>return\<close>; it is \<open>False\<close> when the loop ran to its end or
  was left by \<^verbatim>\<open>break\<close>.
\<close>

fun listingLoop :: "Env \<Rightarrow> SearchConfig \<Rightarrow> RawJob list \<Rightarrow> World \<Rightarrow> bool \<times> World" where
  "listingLoop env srch [] w = (False, w)"
| "listingLoop env srch (raw # rest) w =
     (if str_includes (toLowerCase (title raw)) ''remote'' then listingLoop env srch rest w
      else if isRemote (metaTags raw) (locationLine raw) then listingLoop env srch rest w
      else if \<not> isRelevantTitle (title raw) then listingLoop env srch rest w
      else if str_includes (toLowerCase (company raw)) ''twine'' then listingLoop env srch rest w
      else if mapHas (JOBS w) (canonicalUrl (jobUrl raw)) then listingLoop env srch rest w
      else if \<not> str_includes (toLowerCase (countryGuess raw)) (toLowerCase (country srch))
        then listingLoop env srch rest w
      else if mapSize (JOBS w) \<ge> 200 then (False, w)
      else
        let w' = addListing env raw w in
        if countByCountry (JOBS w') (country srch) \<ge> maxJobs srch then (True, w')
        else listingLoop env srch rest w')"

text \<open>The loop over the pages, \<^verbatim>\<open>start = 0, 25, 50\<close>.\<close>

function pageLoop :: "Env \<Rightarrow> SearchConfig \<Rightarrow> nat \<Rightarrow> World \<Rightarrow> World" where
  "pageLoop env srch start w =
     (if start \<le> MAX_START then
        (case fetchText env (searchUrl srch start) 1 w of
           (Inl e, w1) \<Rightarrow> w1
         | (Inr text, w1) \<Rightarrow>
             if \<not> str_includes text ''Markdown Content:'' then w1
             else
               let parsed = parseMarkdown text srch in
               if parsed = [] then w1
               else
                 (case listingLoop env srch parsed w1 of
                    (True, w2) \<Rightarrow> w2
                  | (False, w2) \<Rightarrow> pageLoop env srch (start + 25) (delay 1400 w2)))
      else w)"
  by pat_completeness auto
termination
  by (relation "measure (\<lambda>(env, srch, start, w). MAX_START + 1 - start)") auto

definition processSearch :: "Env \<Rightarrow> SearchConfig \<Rightarrow> World \<Rightarrow> World" where
  "processSearch env srch w = pageLoop env srch 0 w"

fun mainLoop :: "Env \<Rightarrow> SearchConfig list \<Rightarrow> World \<Rightarrow> World" where
  "mainLoop env [] w = w"
| "mainLoop env (srch # rest) w =
     (if countByCountry (JOBS w) (country srch) \<ge> maxJobs srch then mainLoop env rest w
      else mainLoop env rest (delay 2000 (processSearch env srch w)))"

text \<open>
  \<^verbatim>\<open>items.sort(f)\<close> as a stable insertion sort. For a comparison function that is
  consistent, every stable sort returns this list.
\<close>

fun insertSorted :: "('a \<Rightarrow> 'a \<Rightarrow> int) \<Rightarrow> 'a \<Rightarrow> 'a list \<Rightarrow> 'a list" where
  "insertSorted f x [] = [x]"
| "insertSorted f x (y # ys) = (if f x y \<le> 0 then x # y # ys else y # insertSorted f x ys)"

definition arraySort :: "('a \<Rightarrow> 'a \<Rightarrow> int) \<Rightarrow> 'a list \<Rightarrow> 'a list" where
  "arraySort f xs = foldr (insertSorted f) xs []"

text \<open>
  The comparison function of \<^verbatim>\<open>main\<close>:
  \<^verbatim>\<open>a.country.localeCompare(b.country) || a.title.localeCompare(b.title)\<close>.
\<close>

definition compareJobs :: "Env \<Rightarrow> JobEntry \<Rightarrow> JobEntry \<Rightarrow> int" where
  "compareJobs env a b =
     (let c = localeCompare env (job_country a) (job_country b) in
      if c \<noteq> 0 then c else localeCompare env (job_title a) (job_title b))"

record Payload =
  generatedAt :: string
  total' :: nat
  jobs :: "JobEntry list"

text \<open>
  \<^verbatim>\<open>main\<close> up to the payload that it writes to \<^verbatim>\<open>src/data/jobs.json\<close>; \<^verbatim>\<open>JOBS\<close>
  is empty when the script starts.
\<close>

definition main :: "Env \<Rightarrow> Payload \<times> World" where
  "main env =
     (let w = mainLoop env SEARCHES initialWorld;
          items = arraySort (compareJobs env) (map snd (JOBS w));
          (now, w') = readClock env w
      in (\<lparr>generatedAt = now, total' = length items, jobs = items\<rparr>, w'))"

subsection \<open>Notions of the specification\<close>

text \<open>
  A string occurs in another as a case-insensitive substring when some stretch of the
  second string equals the first up to the case of its letters.
\<close>

definition ci_substring :: "string \<Rightarrow> string \<Rightarrow> bool" where
  "ci_substring needle hay =
     (\<exists>pre mid post. hay = pre @ mid @ post \<and> toLowerCase mid = toLowerCase needle)"

text \<open>
  A listing is valid for a search when none of the tests on the listing alone skips it:
  it is not remote by title or by meta line, its title is relevant, its company is not
  the blocked one, and its country contains the country of the search. It passes the
  filters of the loop over the listings when moreover its canonical URL is not yet a key
  of the map and the map holds fewer than 200 entries, so that the listing reaches the
  visa check and becomes an entry.
\<close>

definition validListing :: "SearchConfig \<Rightarrow> RawJob \<Rightarrow> bool" where
  "validListing srch raw =
     (\<not> str_includes (toLowerCase (title raw)) ''remote''
      \<and> \<not> isRemote (metaTags raw) (locationLine raw)
      \<and> isRelevantTitle (title raw)
      \<and> \<not> str_includes (toLowerCase (company raw)) ''twine''
      \<and> str_includes (toLowerCase (countryGuess raw)) (toLowerCase (country srch)))"

definition passesFilters :: "SearchConfig \<Rightarrow> RawJob \<Rightarrow> World \<Rightarrow> bool" where
  "passesFilters srch raw w =
     (validListing srch raw
      \<and> \<not> mapHas (JOBS w) (canonicalUrl (jobUrl raw))
      \<and> mapSize (JOBS w) < 200)"

text \<open>
  The entries of the map are well keyed when the keys are pairwise different and every
  entry is stored under its own \<^verbatim>\<open>id\<close>, which is also its \<^verbatim>\<open>applyUrl\<close> and holds no
  question mark. A comparison function is consistent when its sign is antisymmetric and
  its relation of not being greater is transitive; \<^verbatim>\<open>sort\<close> promises an order only
  for such functions, and \<^verbatim>\<open>localeCompare\<close> is required to be one. A list of entries is
  sorted by country, then title, when every entry and its successor are in order by
  country and, where their countries compare equal, by title.
\<close>

definition wellKeyed :: "(string \<times> JobEntry) list \<Rightarrow> bool" where
  "wellKeyed m =
     (distinct (map fst m)
      \<and> list_all (\<lambda>(k, e). job_id e = k \<and> job_applyUrl e = k \<and> CHR ''?'' \<notin> set k) m)"

definition consistentComparator :: "(string \<Rightarrow> string \<Rightarrow> int) \<Rightarrow> bool" where
  "consistentComparator cmp =
     ((\<forall>a b. (cmp a b < 0) = (0 < cmp b a))
      \<and> (\<forall>a b c. cmp a b \<le> 0 \<and> cmp b c \<le> 0 \<longrightarrow> cmp a c \<le> 0))"

fun sortedByCountryThenTitle :: "(string \<Rightarrow> string \<Rightarrow> int) \<Rightarrow> JobEntry list \<Rightarrow> bool" where
  "sortedByCountryThenTitle cmp (a # b # js) =
     (cmp (job_country a) (job_country b) \<le> 0
      \<and> (cmp (job_country a) (job_country b) = 0 \<longrightarrow> cmp (job_title a) (job_title b) \<le> 0)
      \<and> sortedByCountryThenTitle cmp (b # js))"
| "sortedByCountryThenTitle cmp js = True"

subsection \<open>Environments for the witnesses\<close>

text \<open>
  The status of the answer to the request number \<open>n\<close>, if it is answered; an order of
  strings by character codes, to stand for \<^verbatim>\<open>localeCompare\<close>; and an environment that
  answers the requests from a list, in order, whatever the URL.
\<close>

definition statusAt :: "Env \<Rightarrow> string \<Rightarrow> nat \<Rightarrow> nat option" where
  "statusAt env url n =
     (case fetch env url n of Inl e \<Rightarrow> None | Inr r \<Rightarrow> Some (response_status r))"

fun codeCompare :: "string \<Rightarrow> string \<Rightarrow> int" where
  "codeCompare [] [] = 0"
| "codeCompare [] (y # ys) = -1"
| "codeCompare (x # xs) [] = 1"
| "codeCompare (x # xs) (y # ys) =
     (if (of_char x :: nat) < of_char y then -1
      else if (of_char y :: nat) < of_char x then 1
      else codeCompare xs ys)"

definition scriptedEnv :: "(Error + Response) list \<Rightarrow> Env" where
  "scriptedEnv script =
     \<lparr>fetch = (\<lambda>url n. if n < length script then script ! n else Inl NetworkFailure),
      clock = (\<lambda>n. ''2025-01-01T00:00:00.000Z''),
      localeCompare = codeCompare\<rparr>"

definition http :: "nat \<Rightarrow> string \<Rightarrow> Error + Response" where
  "http st body = Inr \<lparr>response_status = st, response_statusText = [], response_text = body\<rparr>"

definition env3 :: Env where
  "env3 = scriptedEnv [http 429 [], http 429 [], http 429 [], http 200 ''listing'']"

definition env5 :: Env where
  "env5 = scriptedEnv [http 429 [], http 429 [], http 429 [], http 429 [], http 429 []]"

definition envMarked :: Env where
  "envMarked = scriptedEnv [http 429 [], http 429 [], http 429 [],
                            http 200 ''Error: too many requests'', http 429 []]"

text \<open>
  One answer with a sponsorship-free detail page; a stored entry and a listing whose
  country is \<open>Northern Ireland\<close>, and a search for \<open>Ireland\<close> with a cap of one.
\<close>

definition hiringEnv :: Env where
  "hiringEnv = scriptedEnv [http 200 ''We are hiring'']"

definition northernJob :: JobEntry where
  "northernJob =
     \<lparr>job_id = ''https://www.linkedin.com/jobs/view/1'',
      job_title = ''Brand Manager'', job_company = ''Acme'',
      job_applyUrl = ''https://www.linkedin.com/jobs/view/1'',
      job_companyUrl = None, job_location = ''Belfast'',
      job_country = ''Northern Ireland'', job_posted = ''Recently posted'',
      job_meta = [], job_matchReasons = [''Matches Digital Marketing Executive (UK)''],
      job_visa = \<lparr>status = NotMentioned, evidence = None\<rparr>,
      job_searchLabel = ''Digital Marketing Executive (UK)'',
      job_searchKeywords = ''digital marketing executive'',
      job_source = ''LinkedIn'', job_fetchedAt = ''2025-01-01T00:00:00.000Z''\<rparr>"

definition northernWorld :: World where
  "northernWorld = initialWorld\<lparr>JOBS := [(job_id northernJob, northernJob)]\<rparr>"

definition irelandSearch :: SearchConfig where
  "irelandSearch = \<lparr>country = ''Ireland'', locationParam = ''Dublin, County Dublin, Ireland'',
      keywords' = ''digital marketing manager'', label = ''Digital Marketing Manager (Ireland)'',
      maxJobs = 1\<rparr>"

definition northernRaw :: RawJob where
  "northernRaw =
     \<lparr>title = ''Brand Manager'', company = ''Acme'',
      jobUrl = ''https://www.linkedin.com/jobs/view/1?refId=abc'',
      companyUrl = Some ''https://www.linkedin.com/company/acme'',
      locationLine = ''Belfast'', postedText = Some [], metaTags = [],
      countryGuess = ''Northern Ireland'', search = irelandSearch\<rparr>"

text \<open>
  A search for Belgium with a cap of two, and a page that holds one listing and no
  sentinel.
\<close>

definition belgiumSearch :: SearchConfig where
  "belgiumSearch = \<lparr>country = ''Belgium'', locationParam = ''Belgium'',
      keywords' = ''digital marketing'', label = ''Digital Marketing (Belgium)'', maxJobs = 2\<rparr>"

definition bareListing :: string where
  "bareListing =
     ''*   [Marketing Manager](https://www.linkedin.com/jobs/view/123?refId=abc)\<newline>\<newline>'' @
     ''#### [Acme](https://www.linkedin.com/company/acme)\<newline>\<newline>'' @
     '' Brussels, Brussels Region, Belgium  2 days ago\<newline>\<newline>Be an early applicant''"

definition bareEnv :: Env where
  "bareEnv = scriptedEnv [http 200 bareListing]"

text \<open>
  A listing in Belgium whose title holds keywords of two skill rules, and an environment
  whose only answer is a server error with a body that holds keywords of three others.
\<close>

definition campaignRaw :: RawJob where
  "campaignRaw =
     \<lparr>title = ''Social Media Campaign Manager'', company = ''Acme'',
      jobUrl = ''https://www.linkedin.com/jobs/view/123?refId=abc'',
      companyUrl = Some ''https://www.linkedin.com/company/acme'',
      locationLine = ''Brussels, Brussels Region, Belgium'',
      postedText = Some ''2 days ago'', metaTags = [''2 days ago''],
      countryGuess = ''Belgium'', search = belgiumSearch\<rparr>"

definition failingEnv :: Env where
  "failingEnv = scriptedEnv [http 500 ''SEO video newsletter'']"

text \<open>
  A page in the dialect of the proxy with three listings in Belgium, its listings as the
  parser returns them, and an environment that answers the search request with the page
  and the requests for details with short texts.
\<close>

definition listingText :: "string \<Rightarrow> string \<Rightarrow> string \<Rightarrow> string \<Rightarrow> string" where
  "listingText ttl url firm place =
     ''*   ['' @ ttl @ '']('' @ url @ '')\<newline>\<newline>'' @
     ''#### ['' @ firm @ ''](https://linkedin.com/company/a)\<newline>\<newline>'' @
     '' '' @ place @ ''  2 days ago\<newline>\<newline>New\<newline>''"

definition capPage :: string where
  "capPage =
     ''Title: Jobs\<newline>\<newline>Markdown Content:\<newline>'' @
     listingText ''Social Media Manager'' ''https://linkedin.com/jobs/view/101?refId=a''
       ''Acme'' ''Brussels, Belgium'' @
     listingText ''Brand Content Creator'' ''https://linkedin.com/jobs/view/102?refId=b''
       ''Beta'' ''Ghent, Belgium'' @
     listingText ''Digital Marketing Lead'' ''https://linkedin.com/jobs/view/103?refId=c''
       ''Gamma'' ''Antwerp, Belgium''"

definition capRaw :: "string \<Rightarrow> string \<Rightarrow> string \<Rightarrow> string \<Rightarrow> RawJob" where
  "capRaw ttl url firm place =
     \<lparr>title = ttl, company = firm, jobUrl = url,
      companyUrl = Some ''https://linkedin.com/company/a'',
      locationLine = place, postedText = Some ''2 days ago'', metaTags = [''2 days ago''],
      countryGuess = ''Belgium'', search = belgiumSearch\<rparr>"

definition capRaw1 :: RawJob where
  "capRaw1 = capRaw ''Social Media Manager'' ''https://linkedin.com/jobs/view/101?refId=a''
               ''Acme'' ''Brussels, Belgium''"

definition capRaw2 :: RawJob where
  "capRaw2 = capRaw ''Brand Content Creator'' ''https://linkedin.com/jobs/view/102?refId=b''
               ''Beta'' ''Ghent, Belgium''"

definition capRaw3 :: RawJob where
  "capRaw3 = capRaw ''Digital Marketing Lead'' ''https://linkedin.com/jobs/view/103?refId=c''
               ''Gamma'' ''Antwerp, Belgium''"

definition capEnv :: Env where
  "capEnv = scriptedEnv [http 200 capPage, http 200 ''We grow brands.'',
                         http 200 ''Visa sponsorship provided.'', http 200 ''not requested'']"

definition capWorld1 :: World where
  "capWorld1 = initialWorld\<lparr>requests := [searchUrl belgiumSearch 0]\<rparr>"

text \<open>
  A run of \<^verbatim>\<open>main\<close> with entries in two countries: the first search for Belgium gets
  the page above and a server error for its second page; the second search gets a server
  error; the first search for Ireland gets a page with one listing and then a server
  error; every later request fails. And a listing with the canonical URL of the first
  listing of the page above, under another query string.
\<close>

definition irelandPage :: string where
  "irelandPage =
     ''Title: Jobs\<newline>\<newline>Markdown Content:\<newline>'' @
     listingText ''Content Strategist'' ''https://linkedin.com/jobs/view/201?refId=d''
       ''Delta'' ''Dublin, Ireland''"

definition sortEnv :: Env where
  "sortEnv = scriptedEnv
     [http 200 capPage, http 200 ''We grow brands.'', http 200 ''Visa sponsorship provided.'',
      http 200 ''You must have EU work permit.'', http 500 [], http 500 [],
      http 200 irelandPage, http 200 ''Right to work required.'', http 500 []]"

definition dupRaw :: RawJob where
  "dupRaw = capRaw ''Social Media Manager'' ''https://linkedin.com/jobs/view/101?refId=zzz''
              ''Acme'' ''Brussels, Belgium''"

section \<open>Properties\<close>

text \<open>
  The equations of the functions whose recursion is not on the structure of an argument
  are unfolded by hand.
\<close>

declare rx_search.simps [simp del]
declare fetchText.simps [simp del]
declare pageLoop.simps [simp del]
declare listingLoop.simps [simp del]

subsection \<open>Character classes on the bits of a character\<close>

text \<open>
  The character functions are defined by the codes of the characters. These equations
  state them on the eight bits of a character (the lowest first), which is how concrete
  strings are evaluated below.
\<close>

lemma isUpper_code [code]:
  "isUpper (Char b0 b1 b2 b3 b4 b5 b6 b7) =
     (\<not> b7 \<and> b6 \<and> \<not> b5 \<and> (b0 \<or> b1 \<or> b2 \<or> b3 \<or> b4) \<and> \<not> (b4 \<and> b3 \<and> (b2 \<or> (b1 \<and> b0))))"
  by (cases b0; cases b1; cases b2; cases b3; cases b4; cases b5; cases b6; cases b7;
      simp add: isUpper_def)

lemma isLower_code [code]:
  "isLower (Char b0 b1 b2 b3 b4 b5 b6 b7) =
     (\<not> b7 \<and> b6 \<and> b5 \<and> (b0 \<or> b1 \<or> b2 \<or> b3 \<or> b4) \<and> \<not> (b4 \<and> b3 \<and> (b2 \<or> (b1 \<and> b0))))"
  by (cases b0; cases b1; cases b2; cases b3; cases b4; cases b5; cases b6; cases b7;
      simp add: isLower_def)

lemma isDigit_code [code]:
  "isDigit (Char b0 b1 b2 b3 b4 b5 b6 b7) =
     (\<not> b7 \<and> \<not> b6 \<and> b5 \<and> b4 \<and> \<not> (b3 \<and> (b2 \<or> b1)))"
  by (cases b0; cases b1; cases b2; cases b3; cases b4; cases b5; cases b6; cases b7;
      simp add: isDigit_def)

lemma isSpace_code [code]:
  "isSpace (Char b0 b1 b2 b3 b4 b5 b6 b7) =
     (\<not> b7 \<and> \<not> b6 \<and> \<not> b4 \<and>
      ((b5 \<and> \<not> b3 \<and> \<not> b2 \<and> \<not> b1 \<and> \<not> b0)
       \<or> (\<not> b5 \<and> b3 \<and> ((\<not> b2 \<and> (b1 \<or> b0)) \<or> (b2 \<and> \<not> b1)))))"
  by (cases b0; cases b1; cases b2; cases b3; cases b4; cases b5; cases b6; cases b7;
      simp add: isSpace_def)

lemma lowerChar_code [code]:
  "lowerChar (Char b0 b1 b2 b3 b4 b5 b6 b7) =
     (if isUpper (Char b0 b1 b2 b3 b4 b5 b6 b7) then Char b0 b1 b2 b3 b4 True b6 b7
      else Char b0 b1 b2 b3 b4 b5 b6 b7)"
  by (cases b0; cases b1; cases b2; cases b3; cases b4; cases b5; cases b6; cases b7;
      simp add: lowerChar_def isUpper_def char_of_def bit_0)

lemma upperChar_code [code]:
  "upperChar (Char b0 b1 b2 b3 b4 b5 b6 b7) =
     (if isLower (Char b0 b1 b2 b3 b4 b5 b6 b7) then Char b0 b1 b2 b3 b4 False b6 b7
      else Char b0 b1 b2 b3 b4 b5 b6 b7)"
  by (cases b0; cases b1; cases b2; cases b3; cases b4; cases b5; cases b6; cases b7;
      simp add: upperChar_def isLower_def char_of_def bit_0)

subsection \<open>Strings\<close>

lemma str_includes_iff: "str_includes s t \<longleftrightarrow> (\<exists>pre post. s = pre @ t @ post)"
proof (induction s)
  case Nil
  then show ?case by auto
next
  case (Cons c cs)
  show ?case
  proof
    assume "str_includes (c # cs) t"
    then consider "prefix t (c # cs)" | "str_includes cs t" by auto
    then show "\<exists>pre post. c # cs = pre @ t @ post"
    proof cases
      case 1
      then obtain post where "c # cs = t @ post" by (auto simp: prefix_def)
      then have "c # cs = [] @ t @ post" by simp
      then show ?thesis by blast
    next
      case 2
      with Cons.IH obtain pre post where "cs = pre @ t @ post" by blast
      then have "c # cs = (c # pre) @ t @ post" by simp
      then show ?thesis by blast
    qed
  next
    assume "\<exists>pre post. c # cs = pre @ t @ post"
    then obtain pre post where eq: "c # cs = pre @ t @ post" by blast
    show "str_includes (c # cs) t"
    proof (cases pre)
      case Nil
      with eq have "prefix t (c # cs)" by (simp add: prefix_def)
      then show ?thesis by simp
    next
      case (Cons d pre')
      with eq have "cs = pre' @ t @ post" by simp
      with Cons.IH have "str_includes cs t" by blast
      then show ?thesis by simp
    qed
  qed
qed

lemma toLowerCase_append: "toLowerCase (a @ b) = toLowerCase a @ toLowerCase b"
  by (simp add: toLowerCase_def)

text \<open>
  The test \<^verbatim>\<open>hay.toLowerCase().includes(needle.toLowerCase())\<close> of the script decides
  the notion of the specification.
\<close>

lemma str_includes_lower_iff:
  "str_includes (toLowerCase hay) (toLowerCase needle) \<longleftrightarrow> ci_substring needle hay"
proof
  assume "str_includes (toLowerCase hay) (toLowerCase needle)"
  then obtain pre post where eq: "toLowerCase hay = pre @ toLowerCase needle @ post"
    by (auto simp: str_includes_iff)
  let ?n = "length pre" and ?k = "length needle"
  have len: "length (toLowerCase needle) = ?k" by (simp add: toLowerCase_def)
  have hay: "hay = take ?n hay @ take ?k (drop ?n hay) @ drop ?k (drop ?n hay)"
    by (simp only: append_take_drop_id)
  have "toLowerCase (take ?k (drop ?n hay)) = take ?k (drop ?n (toLowerCase hay))"
    by (simp add: toLowerCase_def take_map drop_map)
  also have "\<dots> = toLowerCase needle" using eq len by simp
  finally show "ci_substring needle hay" unfolding ci_substring_def using hay by blast
next
  assume "ci_substring needle hay"
  then obtain pre mid post where "hay = pre @ mid @ post" "toLowerCase mid = toLowerCase needle"
    by (auto simp: ci_substring_def)
  then have "toLowerCase hay = toLowerCase pre @ toLowerCase needle @ toLowerCase post"
    by (simp add: toLowerCase_append)
  then show "str_includes (toLowerCase hay) (toLowerCase needle)"
    by (auto simp: str_includes_iff)
qed

subsection \<open>Title relevance\<close>

lemma excluded_lower: "kw \<in> set excluded \<Longrightarrow> toLowerCase kw = kw"
proof -
  have "list_all (\<lambda>kw. toLowerCase kw = kw) excluded" by code_simp
  then show "kw \<in> set excluded \<Longrightarrow> toLowerCase kw = kw" by (simp add: list_all_iff)
qed

text \<open>
  Claim C6. A title in which one of the exclusion keywords (engineer, engineering,
  developer, scientist, medical writer, nurse, physician, chemist) occurs as a
  case-insensitive substring is not relevant, whatever else the title contains, so also
  when it contains an inclusion keyword.
\<close>

theorem isRelevantTitle_exclusion_dominates:
  assumes "keyword \<in> set [''engineer'', ''engineering'', ''developer'', ''scientist'',
                            ''medical writer'', ''nurse'', ''physician'', ''chemist'']"
      and "ci_substring keyword ttl"
  shows "isRelevantTitle ttl = False"
proof -
  from assms(1) have mem: "keyword \<in> set excluded" by (simp add: excluded_def)
  then have "toLowerCase keyword = keyword" by (rule excluded_lower)
  with assms(2) have "str_includes (toLowerCase ttl) keyword"
    using str_includes_lower_iff [of ttl keyword] by simp
  with mem have "list_ex (\<lambda>kw. str_includes (toLowerCase ttl) kw) excluded"
    by (auto simp: list_ex_iff)
  then show ?thesis by (simp add: isRelevantTitle_def)
qed

lemma ci_substring_engineer: "ci_substring ''engineer'' ''Senior Marketing ENGINEER (Brand)''"
proof -
  have "str_includes (toLowerCase ''Senior Marketing ENGINEER (Brand)'') (toLowerCase ''engineer'')"
    by code_simp
  then show ?thesis by (simp only: str_includes_lower_iff)
qed

text \<open>
  The title of the witness holds the inclusion keyword \<open>marketing\<close> and the exclusion
  keyword \<open>engineer\<close>, the latter in upper case.
\<close>

theorem isRelevantTitle_exclusion_dominates_witness:
  "ci_substring ''engineer'' ''Senior Marketing ENGINEER (Brand)''
   \<and> str_includes (toLowerCase ''Senior Marketing ENGINEER (Brand)'') ''marketing''
   \<and> isRelevantTitle ''Senior Marketing ENGINEER (Brand)'' = False"
proof -
  have a: "ci_substring ''engineer'' ''Senior Marketing ENGINEER (Brand)''"
    by (rule ci_substring_engineer)
  have b: "str_includes (toLowerCase ''Senior Marketing ENGINEER (Brand)'') ''marketing''"
    by code_simp
  have "isRelevantTitle ''Senior Marketing ENGINEER (Brand)'' = False"
    by (rule isRelevantTitle_exclusion_dominates [OF _ a]) simp
  with a b show ?thesis by simp
qed

subsection \<open>Literal patterns\<close>

lemma liti_Cons: "liti (c # l) = Seq (Cls (\<lambda>d. lowerChar d = lowerChar c)) (liti l)"
  by (simp add: liti_def)

lemma liti_Nil: "liti [] = Eps"
  by (simp add: liti_def)

lemma rxm_liti_Nil_iff:
  "rxm (liti l) (p, s, caps) = [] \<longleftrightarrow> \<not> prefix (toLowerCase l) (toLowerCase s)"
proof (induction l arbitrary: p s)
  case Nil
  then show ?case by (simp add: liti_Nil toLowerCase_def)
next
  case (Cons c l)
  show ?case
  proof (cases s)
    case Nil
    then show ?thesis by (simp add: liti_Cons toLowerCase_def)
  next
    case (Cons d ds)
    then show ?thesis using Cons.IH [of "Some d" ds]
      by (auto simp: liti_Cons toLowerCase_def)
  qed
qed

lemma rx_search_liti_None_iff:
  "rx_search (liti l) p s = None \<longleftrightarrow> \<not> str_includes (toLowerCase s) (toLowerCase l)"
proof (induction s arbitrary: p)
  case Nil
  have "rxm (liti l) (p, [], []) = [] \<longleftrightarrow> l \<noteq> []"
    by (simp add: rxm_liti_Nil_iff toLowerCase_def)
  then show ?case
    by (subst rx_search.simps) (auto simp: toLowerCase_def split: list.splits)
next
  case (Cons c cs)
  have "rxm (liti l) (p, c # cs, []) = [] \<longleftrightarrow> \<not> prefix (toLowerCase l) (toLowerCase (c # cs))"
    by (rule rxm_liti_Nil_iff)
  then show ?case using Cons.IH [of "Some c"]
    by (subst rx_search.simps) (auto simp: toLowerCase_def split: list.splits)
qed

text \<open>A literal under the \<^verbatim>\<open>i\<close> flag is found where it occurs up to case.\<close>

lemma rx_test_liti: "rx_test (liti l) s \<longleftrightarrow> ci_substring l s"
  by (simp add: rx_test_def rx_match_def rx_search_liti_None_iff str_includes_lower_iff)

subsection \<open>\<^verbatim>\<open>fetchText\<close>\<close>

lemma rateLimitBody_iff:
  "rateLimitBody payload \<longleftrightarrow>
     ci_substring ''HTTP ERROR 429'' payload \<or> ci_substring ''Too Many Requests'' payload"
  by (simp add: rateLimitBody_def rx_test_liti)

lemma fetchText_status_429:
  assumes "fetch env url (length (requests w)) = Inr r" and "response_status r = 429"
  shows "fetchText env url attempt w =
           (if attempt > 4 then (Inl (RetriesExhausted url), w\<lparr>requests := requests w @ [url]\<rparr>)
            else fetchText env url (attempt + 1)
                   (delay (3000 * attempt) (w\<lparr>requests := requests w @ [url]\<rparr>)))"
  using assms by (subst fetchText.simps) (simp add: Let_def)

lemma fetchText_success:
  assumes "fetch env url (length (requests w)) = Inr r" and "response_status r \<noteq> 429"
      and "\<not> rateLimitBody (response_text r)" and "response_ok r"
  shows "fetchText env url attempt w = (Inr (response_text r), w\<lparr>requests := requests w @ [url]\<rparr>)"
  using assms by (subst fetchText.simps) (simp add: Let_def)

lemma fetchText_http_error:
  assumes "fetch env url (length (requests w)) = Inr r" and "response_status r \<noteq> 429"
      and "\<not> rateLimitBody (response_text r)" and "\<not> response_ok r"
  shows "fetchText env url attempt w =
           (Inl (HttpError url (response_status r) (response_statusText r)),
            w\<lparr>requests := requests w @ [url]\<rparr>)"
  using assms by (subst fetchText.simps) (simp add: Let_def)

lemma requests_delay [simp]: "requests (delay ms w) = requests w"
  by (simp add: delay_def)

lemma JOBS_delay [simp]: "JOBS (delay ms w) = JOBS w"
  by (simp add: delay_def)

lemma fetchText_requests_bound:
  "length (requests (snd (fetchText env url attempt w)))
     \<le> length (requests w) + max 1 (6 - attempt)"
proof (induction env url attempt w rule: fetchText.induct)
  case (1 env url attempt w)
  let ?w1 = "w\<lparr>requests := requests w @ [url]\<rparr>"
  show ?case
  proof (cases "fetch env url (length (requests w))")
    case (Inl e)
    then show ?thesis by (subst fetchText.simps) simp
  next
    case (Inr r)
    show ?thesis
    proof (cases "attempt > 4 \<or> (response_status r \<noteq> 429 \<and> \<not> rateLimitBody (response_text r))")
      case True
      then show ?thesis using Inr by (subst fetchText.simps) (auto simp: Let_def)
    next
      case False
      then have small: "\<not> attempt > 4" by simp
      show ?thesis
      proof (cases "response_status r = 429")
        case True
        have "length (requests (snd (fetchText env url (attempt + 1) (delay (3000 * attempt) ?w1))))
                \<le> length (requests (delay (3000 * attempt) ?w1)) + max 1 (6 - (attempt + 1))"
          using "1.IH"(1) [OF refl Inr True small] .
        moreover have "fetchText env url attempt w
                         = fetchText env url (attempt + 1) (delay (3000 * attempt) ?w1)"
          using Inr True small by (simp add: fetchText_status_429)
        ultimately show ?thesis using small by simp
      next
        case no429: False
        with False have marker: "response_status r = 429 \<or> rateLimitBody (response_text r)"
          by simp
        have "length (requests (snd (fetchText env url (attempt + 1) (delay (4000 * attempt) ?w1))))
                \<le> length (requests (delay (4000 * attempt) ?w1)) + max 1 (6 - (attempt + 1))"
          using "1.IH"(2) [OF refl Inr no429 refl marker small] .
        moreover have "fetchText env url attempt w
                         = fetchText env url (attempt + 1) (delay (4000 * attempt) ?w1)"
          using Inr no429 marker small by (subst fetchText.simps) (simp add: Let_def)
        ultimately show ?thesis using small by simp
      qed
    qed
  qed
qed

lemma fetchText_429_retry:
  assumes "statusAt env url (length (requests w)) = Some 429" and "attempt \<le> 4"
      and "next = attempt + 1" and "ms = 3000 * attempt"
  shows "fetchText env url attempt w =
           fetchText env url next (delay ms (w\<lparr>requests := requests w @ [url]\<rparr>))"
proof -
  from assms(1) obtain r where "fetch env url (length (requests w)) = Inr r"
      and "response_status r = 429"
    by (auto simp: statusAt_def split: sum.splits)
  then show ?thesis using assms(2-4) by (simp add: fetchText_status_429)
qed

lemma fetchText_429_exhausted:
  assumes "statusAt env url (length (requests w)) = Some 429" and "attempt > 4"
  shows "fetchText env url attempt w =
           (Inl (RetriesExhausted url), w\<lparr>requests := requests w @ [url]\<rparr>)"
proof -
  from assms(1) obtain r where "fetch env url (length (requests w)) = Inr r"
      and "response_status r = 429"
    by (auto simp: statusAt_def split: sum.splits)
  then show ?thesis using assms(2) by (simp add: fetchText_status_429)
qed

lemma fetchText_marker:
  assumes "fetch env url (length (requests w)) = Inr r"
      and "rateLimitBody (response_text r)"
  shows "fetchText env url attempt w =
           (if attempt > 4 then (Inl (RetriesExhausted url), w\<lparr>requests := requests w @ [url]\<rparr>)
            else fetchText env url (attempt + 1)
                   (delay ((if response_status r = 429 then 3000 else 4000) * attempt)
                      (w\<lparr>requests := requests w @ [url]\<rparr>)))"
  using assms by (subst fetchText.simps) (simp add: Let_def)

lemma fetchText_last_attempt:
  assumes "attempt > 4"
  shows "fetchText env url attempt w =
           (case fetch env url (length (requests w)) of
              Inl e \<Rightarrow> (Inl e, w\<lparr>requests := requests w @ [url]\<rparr>)
            | Inr r \<Rightarrow>
                if response_status r = 429 \<or> rateLimitBody (response_text r)
                then (Inl (RetriesExhausted url), w\<lparr>requests := requests w @ [url]\<rparr>)
                else if \<not> response_ok r
                then (Inl (HttpError url (response_status r) (response_statusText r)),
                      w\<lparr>requests := requests w @ [url]\<rparr>)
                else (Inr (response_text r), w\<lparr>requests := requests w @ [url]\<rparr>))"
  using assms by (subst fetchText.simps) (simp add: Let_def split: sum.splits)

text \<open>
  Claim C3, as amended. A response whose status is neither 429 nor a success, and whose
  body holds neither rate-limit marker (\<^verbatim>\<open>HTTP ERROR 429\<close>, \<^verbatim>\<open>Too Many Requests\<close>,
  in any case of the letters), makes \<^verbatim>\<open>fetchText\<close> fail at once with the HTTP error
  that carries the status: the world after the call holds the one request and no delay.
  The body is tested for the markers before the status is tested for success: a response
  of any status whose body holds a marker is handled as a rate-limit response. The call
  then fails with the error for exhausted retries when the attempt is past the fourth,
  and otherwise waits and tries again as the next attempt; the wait is 3000 ms times the
  attempt when the status is 429, which is decided before the body is read, and 4000 ms
  times the attempt for every other status.
\<close>

theorem fetchText_http_error_no_retry:
  assumes "fetch env url (length (requests w)) = Inr response"
  shows "(response_status response \<noteq> 429 \<and> \<not> response_ok response
          \<and> \<not> ci_substring ''HTTP ERROR 429'' (response_text response)
          \<and> \<not> ci_substring ''Too Many Requests'' (response_text response)
          \<longrightarrow> fetchText env url attempt w =
                (Inl (HttpError url (response_status response) (response_statusText response)),
                 w\<lparr>requests := requests w @ [url]\<rparr>))
       \<and> (ci_substring ''HTTP ERROR 429'' (response_text response)
          \<or> ci_substring ''Too Many Requests'' (response_text response)
          \<longrightarrow> fetchText env url attempt w =
                (if attempt > 4
                 then (Inl (RetriesExhausted url), w\<lparr>requests := requests w @ [url]\<rparr>)
                 else fetchText env url (attempt + 1)
                        (delay ((if response_status response = 429 then 3000 else 4000) * attempt)
                           (w\<lparr>requests := requests w @ [url]\<rparr>))))"
proof (intro conjI impI)
  assume "response_status response \<noteq> 429 \<and> \<not> response_ok response
          \<and> \<not> ci_substring ''HTTP ERROR 429'' (response_text response)
          \<and> \<not> ci_substring ''Too Many Requests'' (response_text response)"
  then show "fetchText env url attempt w =
                (Inl (HttpError url (response_status response) (response_statusText response)),
                 w\<lparr>requests := requests w @ [url]\<rparr>)"
    using assms by (simp add: fetchText_http_error rateLimitBody_iff)
next
  assume "ci_substring ''HTTP ERROR 429'' (response_text response)
          \<or> ci_substring ''Too Many Requests'' (response_text response)"
  then have "rateLimitBody (response_text response)" by (simp add: rateLimitBody_iff)
  then show "fetchText env url attempt w =
                (if attempt > 4
                 then (Inl (RetriesExhausted url), w\<lparr>requests := requests w @ [url]\<rparr>)
                 else fetchText env url (attempt + 1)
                        (delay ((if response_status response = 429 then 3000 else 4000) * attempt)
                           (w\<lparr>requests := requests w @ [url]\<rparr>)))"
    by (rule fetchText_marker [OF assms])
qed

lemma not_ci_substring_by_test:
  "\<not> str_includes (toLowerCase hay) (toLowerCase needle) \<Longrightarrow> \<not> ci_substring needle hay"
  by (simp add: str_includes_lower_iff)

lemma ci_substring_by_test:
  "str_includes (toLowerCase hay) (toLowerCase needle) \<Longrightarrow> ci_substring needle hay"
  by (simp add: str_includes_lower_iff)

text \<open>
  The witness takes a status 500 with a plain body, and a status 404 whose body holds the
  first marker in another case of the letters, on the fifth attempt and on the second.
\<close>

theorem fetchText_http_error_no_retry_witness:
  "fetch (scriptedEnv [http 500 ''Internal Server Error'']) ''https://r.jina.ai/x''
       (length (requests initialWorld))
     = http 500 ''Internal Server Error''
   \<and> fetchText (scriptedEnv [http 500 ''Internal Server Error'']) ''https://r.jina.ai/x'' 1
       initialWorld
     = (Inl (HttpError ''https://r.jina.ai/x'' 500 []),
        initialWorld\<lparr>requests := requests initialWorld @ [''https://r.jina.ai/x'']\<rparr>)
   \<and> fetch (scriptedEnv [http 404 ''<h1>Http Error 429</h1>'']) ''https://r.jina.ai/x''
       (length (requests initialWorld))
     = http 404 ''<h1>Http Error 429</h1>''
   \<and> ci_substring ''HTTP ERROR 429'' ''<h1>Http Error 429</h1>''
   \<and> fetchText (scriptedEnv [http 404 ''<h1>Http Error 429</h1>'']) ''https://r.jina.ai/x'' 5
       initialWorld
     = (Inl (RetriesExhausted ''https://r.jina.ai/x''),
        initialWorld\<lparr>requests := requests initialWorld @ [''https://r.jina.ai/x'']\<rparr>)
   \<and> fetchText (scriptedEnv [http 404 ''<h1>Http Error 429</h1>'']) ''https://r.jina.ai/x'' 2
       initialWorld
     = fetchText (scriptedEnv [http 404 ''<h1>Http Error 429</h1>'']) ''https://r.jina.ai/x'' 3
         (delay 8000
            (initialWorld\<lparr>requests := requests initialWorld @ [''https://r.jina.ai/x'']\<rparr>))"
proof -
  let ?r = "\<lparr>response_status = 500, response_statusText = [],
             response_text = ''Internal Server Error''\<rparr>"
  let ?q = "\<lparr>response_status = 404, response_statusText = [],
             response_text = ''<h1>Http Error 429</h1>''\<rparr>"
  have f: "fetch (scriptedEnv [http 500 ''Internal Server Error'']) ''https://r.jina.ai/x''
             (length (requests initialWorld)) = Inr ?r"
    by code_simp
  have s: "response_status ?r \<noteq> 429" by simp
  have k: "\<not> response_ok ?r" by (simp add: response_ok_def)
  have m1: "\<not> ci_substring ''HTTP ERROR 429'' (response_text ?r)"
    by (rule not_ci_substring_by_test) code_simp
  have m2: "\<not> ci_substring ''Too Many Requests'' (response_text ?r)"
    by (rule not_ci_substring_by_test) code_simp
  have g: "fetch (scriptedEnv [http 404 ''<h1>Http Error 429</h1>'']) ''https://r.jina.ai/x''
             (length (requests initialWorld)) = Inr ?q"
    by code_simp
  have n1: "ci_substring ''HTTP ERROR 429'' ''<h1>Http Error 429</h1>''"
    by (rule ci_substring_by_test) code_simp
  from fetchText_http_error_no_retry [OF f, of 1] s k m1 m2
  have A: "fetchText (scriptedEnv [http 500 ''Internal Server Error'']) ''https://r.jina.ai/x'' 1
             initialWorld
           = (Inl (HttpError ''https://r.jina.ai/x'' 500 []),
              initialWorld\<lparr>requests := requests initialWorld @ [''https://r.jina.ai/x'']\<rparr>)"
    by simp
  from fetchText_http_error_no_retry [OF g, of 5] n1
  have B: "fetchText (scriptedEnv [http 404 ''<h1>Http Error 429</h1>'']) ''https://r.jina.ai/x'' 5
             initialWorld
           = (Inl (RetriesExhausted ''https://r.jina.ai/x''),
              initialWorld\<lparr>requests := requests initialWorld @ [''https://r.jina.ai/x'']\<rparr>)"
    by simp
  from fetchText_http_error_no_retry [OF g, of 2] n1
  have C: "fetchText (scriptedEnv [http 404 ''<h1>Http Error 429</h1>'']) ''https://r.jina.ai/x'' 2
             initialWorld
           = fetchText (scriptedEnv [http 404 ''<h1>Http Error 429</h1>'']) ''https://r.jina.ai/x'' 3
               (delay 8000
                 (initialWorld\<lparr>requests := requests initialWorld @ [''https://r.jina.ai/x'']\<rparr>))"
    by simp
  from f have f': "fetch (scriptedEnv [http 500 ''Internal Server Error'']) ''https://r.jina.ai/x''
       (length (requests initialWorld)) = http 500 ''Internal Server Error''"
    by (simp add: http_def)
  from g have g': "fetch (scriptedEnv [http 404 ''<h1>Http Error 429</h1>'']) ''https://r.jina.ai/x''
       (length (requests initialWorld)) = http 404 ''<h1>Http Error 429</h1>''"
    by (simp add: http_def)
  from f' A g' n1 B C show ?thesis by blast
qed

text \<open>
  The claim as first stated fails: a response with status 503 whose body holds a
  rate-limit marker is retried. Here the second request is answered with status 200, and
  the call returns that body after a delay of 4000 ms.
\<close>

theorem fetchText_503_rate_limit_body_retries:
  "fetchText (scriptedEnv [http 503 ''Too Many Requests'', http 200 ''listing''])
     ''https://r.jina.ai/x'' 1 initialWorld
   = (Inr ''listing'',
      \<lparr>JOBS = [], requests = [''https://r.jina.ai/x'', ''https://r.jina.ai/x''],
       delays = [4000], clockReads = 0\<rparr>)"
  by code_simp

text \<open>
  Claim C4, as amended. A call of \<^verbatim>\<open>fetchText\<close> retries at most four times, so it issues
  at most five requests. When the first three answers have status 429 and the fourth has
  status 200 with a body that holds no rate-limit marker, the call returns the body of
  the fourth. When the first five answers have status 429, the call fails with the error
  for exhausted retries, after five requests. When the first three answers have status
  429 and the fourth has status 200 with a body that holds a marker, the fourth is one
  more rate-limit answer: the call waits 16000 ms and issues a fifth request, it never
  returns the body of the fourth, and it fails with the error for exhausted retries when
  the fifth answer has status 429.
\<close>

theorem fetchText_retry_cap:
  "(statusAt env url (length (requests w)) = Some 429
    \<and> statusAt env url (length (requests w) + 1) = Some 429
    \<and> statusAt env url (length (requests w) + 2) = Some 429
    \<and> fetch env url (length (requests w) + 3) = Inr r
    \<and> response_status r = 200
    \<and> \<not> ci_substring ''HTTP ERROR 429'' (response_text r)
    \<and> \<not> ci_substring ''Too Many Requests'' (response_text r)
    \<longrightarrow> fst (fetchText env url 1 w) = Inr (response_text r))
   \<and> (statusAt env url (length (requests w)) = Some 429
    \<and> statusAt env url (length (requests w) + 1) = Some 429
    \<and> statusAt env url (length (requests w) + 2) = Some 429
    \<and> statusAt env url (length (requests w) + 3) = Some 429
    \<and> statusAt env url (length (requests w) + 4) = Some 429
    \<longrightarrow> fst (fetchText env url 1 w) = Inl (RetriesExhausted url)
        \<and> length (requests (snd (fetchText env url 1 w))) = length (requests w) + 5)
   \<and> (statusAt env url (length (requests w)) = Some 429
    \<and> statusAt env url (length (requests w) + 1) = Some 429
    \<and> statusAt env url (length (requests w) + 2) = Some 429
    \<and> fetch env url (length (requests w) + 3) = Inr r
    \<and> response_status r = 200
    \<and> (ci_substring ''HTTP ERROR 429'' (response_text r)
        \<or> ci_substring ''Too Many Requests'' (response_text r))
    \<longrightarrow> fst (fetchText env url 1 w) \<noteq> Inr (response_text r)
        \<and> length (requests (snd (fetchText env url 1 w))) = length (requests w) + 5
        \<and> delays (snd (fetchText env url 1 w)) = delays w @ [3000, 6000, 9000, 16000]
        \<and> (statusAt env url (length (requests w) + 4) = Some 429
             \<longrightarrow> fst (fetchText env url 1 w) = Inl (RetriesExhausted url)))
   \<and> length (requests (snd (fetchText env url 1 w))) \<le> length (requests w) + 5"
proof -
  let ?n = "length (requests w)"
  define w1 where "w1 = delay 3000 (w\<lparr>requests := requests w @ [url]\<rparr>)"
  define w2 where "w2 = delay 6000 (w1\<lparr>requests := requests w1 @ [url]\<rparr>)"
  define w3 where "w3 = delay 9000 (w2\<lparr>requests := requests w2 @ [url]\<rparr>)"
  define w4 where "w4 = delay 12000 (w3\<lparr>requests := requests w3 @ [url]\<rparr>)"
  define v4 where "v4 = delay 16000 (w3\<lparr>requests := requests w3 @ [url]\<rparr>)"
  have l1: "length (requests w1) = ?n + 1" by (simp add: w1_def)
  have l2: "length (requests w2) = ?n + 2" by (simp add: w2_def l1)
  have l3: "length (requests w3) = ?n + 3" by (simp add: w3_def l2)
  have l4: "length (requests w4) = ?n + 4" by (simp add: w4_def l3)
  have k4: "length (requests v4) = ?n + 4" by (simp add: v4_def l3)
  have d4: "delays v4 = delays w @ [3000, 6000, 9000, 16000]"
    by (simp add: v4_def w3_def w2_def w1_def delay_def)
  have s1: "fetchText env url 1 w = fetchText env url 2 w1"
    if "statusAt env url ?n = Some 429"
    unfolding w1_def using that by (rule fetchText_429_retry) simp_all
  have s2: "fetchText env url 2 w1 = fetchText env url 3 w2"
    if "statusAt env url (?n + 1) = Some 429"
    unfolding w2_def using that [folded l1] by (rule fetchText_429_retry) simp_all
  have s3: "fetchText env url 3 w2 = fetchText env url 4 w3"
    if "statusAt env url (?n + 2) = Some 429"
    unfolding w3_def using that [folded l2] by (rule fetchText_429_retry) simp_all
  have s4: "fetchText env url 4 w3 = fetchText env url 5 w4"
    if "statusAt env url (?n + 3) = Some 429"
    unfolding w4_def using that [folded l3] by (rule fetchText_429_retry) simp_all
  have a: "fst (fetchText env url 1 w) = Inr (response_text r)"
    if h: "statusAt env url ?n = Some 429 \<and> statusAt env url (?n + 1) = Some 429
           \<and> statusAt env url (?n + 2) = Some 429 \<and> fetch env url (?n + 3) = Inr r
           \<and> response_status r = 200
           \<and> \<not> ci_substring ''HTTP ERROR 429'' (response_text r)
           \<and> \<not> ci_substring ''Too Many Requests'' (response_text r)"
  proof -
    from h have p0: "statusAt env url ?n = Some 429"
      and p1: "statusAt env url (?n + 1) = Some 429"
      and p2: "statusAt env url (?n + 2) = Some 429"
      by blast+
    have "fetchText env url 4 w3 = (Inr (response_text r), w3\<lparr>requests := requests w3 @ [url]\<rparr>)"
      using h l3 by (intro fetchText_success) (simp_all add: rateLimitBody_iff response_ok_def)
    then show ?thesis by (simp only: s1 [OF p0] s2 [OF p1] s3 [OF p2] fst_conv)
  qed
  have b: "fst (fetchText env url 1 w) = Inl (RetriesExhausted url)
           \<and> length (requests (snd (fetchText env url 1 w))) = ?n + 5"
    if h: "statusAt env url ?n = Some 429 \<and> statusAt env url (?n + 1) = Some 429
           \<and> statusAt env url (?n + 2) = Some 429 \<and> statusAt env url (?n + 3) = Some 429
           \<and> statusAt env url (?n + 4) = Some 429"
  proof -
    from h have h0: "statusAt env url ?n = Some 429"
      and h1: "statusAt env url (?n + 1) = Some 429"
      and h2: "statusAt env url (?n + 2) = Some 429"
      and h3: "statusAt env url (?n + 3) = Some 429"
      and h4: "statusAt env url (?n + 4) = Some 429"
      by blast+
    have "fetchText env url 5 w4
            = (Inl (RetriesExhausted url), w4\<lparr>requests := requests w4 @ [url]\<rparr>)"
      using h4 [folded l4] by (rule fetchText_429_exhausted) simp
    then have "fetchText env url 1 w
                 = (Inl (RetriesExhausted url), w4\<lparr>requests := requests w4 @ [url]\<rparr>)"
      by (simp only: s1 [OF h0] s2 [OF h1] s3 [OF h2] s4 [OF h3])
    then show ?thesis by (simp add: l4)
  qed
  have m: "fst (fetchText env url 1 w) \<noteq> Inr (response_text r)
           \<and> length (requests (snd (fetchText env url 1 w))) = ?n + 5
           \<and> delays (snd (fetchText env url 1 w)) = delays w @ [3000, 6000, 9000, 16000]
           \<and> (statusAt env url (?n + 4) = Some 429
                \<longrightarrow> fst (fetchText env url 1 w) = Inl (RetriesExhausted url))"
    if h: "statusAt env url ?n = Some 429 \<and> statusAt env url (?n + 1) = Some 429
           \<and> statusAt env url (?n + 2) = Some 429 \<and> fetch env url (?n + 3) = Inr r
           \<and> response_status r = 200
           \<and> (ci_substring ''HTTP ERROR 429'' (response_text r)
               \<or> ci_substring ''Too Many Requests'' (response_text r))"
  proof -
    from h have p0: "statusAt env url ?n = Some 429"
      and p1: "statusAt env url (?n + 1) = Some 429"
      and p2: "statusAt env url (?n + 2) = Some 429"
      and f3: "fetch env url (?n + 3) = Inr r"
      and st: "response_status r = 200"
      by blast+
    from h have mk: "rateLimitBody (response_text r)" by (simp add: rateLimitBody_iff)
    from f3 have f3': "fetch env url (length (requests w3)) = Inr r" by (simp only: l3)
    have "fetchText env url 4 w3 = fetchText env url 5 v4"
      using fetchText_marker [OF f3' mk, of 4] st by (simp add: v4_def)
    then have e: "fetchText env url 1 w = fetchText env url 5 v4"
      by (simp only: s1 [OF p0] s2 [OF p1] s3 [OF p2])
    have last: "fetchText env url 5 v4 =
           (case fetch env url (?n + 4) of
              Inl e \<Rightarrow> (Inl e, v4\<lparr>requests := requests v4 @ [url]\<rparr>)
            | Inr r' \<Rightarrow>
                if response_status r' = 429 \<or> rateLimitBody (response_text r')
                then (Inl (RetriesExhausted url), v4\<lparr>requests := requests v4 @ [url]\<rparr>)
                else if \<not> response_ok r'
                then (Inl (HttpError url (response_status r') (response_statusText r')),
                      v4\<lparr>requests := requests v4 @ [url]\<rparr>)
                else (Inr (response_text r'), v4\<lparr>requests := requests v4 @ [url]\<rparr>))"
      using fetchText_last_attempt [of 5 env url v4] by (simp add: k4)
    have c1: "fst (fetchText env url 5 v4) \<noteq> Inr (response_text r)"
      using mk by (auto simp: last split: sum.splits)
    have c2: "length (requests (snd (fetchText env url 5 v4))) = ?n + 5"
      by (auto simp: last k4 split: sum.splits)
    have c3: "delays (snd (fetchText env url 5 v4)) = delays w @ [3000, 6000, 9000, 16000]"
      by (auto simp: last d4 split: sum.splits)
    have c4: "fst (fetchText env url 5 v4) = Inl (RetriesExhausted url)"
      if "statusAt env url (?n + 4) = Some 429"
      using that by (auto simp: last statusAt_def split: sum.splits)
    from c1 c2 c3 c4 show ?thesis by (simp only: e) blast
  qed
  have c: "length (requests (snd (fetchText env url 1 w))) \<le> ?n + 5"
    using fetchText_requests_bound [of env url 1 w] by simp
  from a b m c show ?thesis by blast
qed

text \<open>
  The witness runs the three cases: a fourth answer with a plain body, five answers with
  status 429, and a fourth answer with status 200 whose body holds the second marker in
  lower case.
\<close>

theorem fetchText_retry_cap_witness:
  "statusAt env3 ''u'' (length (requests initialWorld)) = Some 429
   \<and> statusAt env3 ''u'' (length (requests initialWorld) + 1) = Some 429
   \<and> statusAt env3 ''u'' (length (requests initialWorld) + 2) = Some 429
   \<and> fetch env3 ''u'' (length (requests initialWorld) + 3) = http 200 ''listing''
   \<and> fst (fetchText env3 ''u'' 1 initialWorld) = Inr ''listing''
   \<and> statusAt env5 ''u'' (length (requests initialWorld)) = Some 429
   \<and> statusAt env5 ''u'' (length (requests initialWorld) + 1) = Some 429
   \<and> statusAt env5 ''u'' (length (requests initialWorld) + 2) = Some 429
   \<and> statusAt env5 ''u'' (length (requests initialWorld) + 3) = Some 429
   \<and> statusAt env5 ''u'' (length (requests initialWorld) + 4) = Some 429
   \<and> fst (fetchText env5 ''u'' 1 initialWorld) = Inl (RetriesExhausted ''u'')
   \<and> length (requests (snd (fetchText env5 ''u'' 1 initialWorld)))
       = length (requests initialWorld) + 5
   \<and> statusAt envMarked ''u'' (length (requests initialWorld)) = Some 429
   \<and> statusAt envMarked ''u'' (length (requests initialWorld) + 1) = Some 429
   \<and> statusAt envMarked ''u'' (length (requests initialWorld) + 2) = Some 429
   \<and> fetch envMarked ''u'' (length (requests initialWorld) + 3)
       = http 200 ''Error: too many requests''
   \<and> ci_substring ''Too Many Requests'' ''Error: too many requests''
   \<and> statusAt envMarked ''u'' (length (requests initialWorld) + 4) = Some 429
   \<and> fst (fetchText envMarked ''u'' 1 initialWorld) = Inl (RetriesExhausted ''u'')
   \<and> length (requests (snd (fetchText envMarked ''u'' 1 initialWorld)))
       = length (requests initialWorld) + 5
   \<and> delays (snd (fetchText envMarked ''u'' 1 initialWorld))
       = delays initialWorld @ [3000, 6000, 9000, 16000]"
proof -
  let ?r = "\<lparr>response_status = 200, response_statusText = [], response_text = ''listing''\<rparr>"
  let ?q = "\<lparr>response_status = 200, response_statusText = [],
             response_text = ''Error: too many requests''\<rparr>"
  have a0: "statusAt env3 ''u'' (length (requests initialWorld)) = Some 429" by code_simp
  have a1: "statusAt env3 ''u'' (length (requests initialWorld) + 1) = Some 429" by code_simp
  have a2: "statusAt env3 ''u'' (length (requests initialWorld) + 2) = Some 429" by code_simp
  have a3: "fetch env3 ''u'' (length (requests initialWorld) + 3) = Inr ?r" by code_simp
  have a4: "response_status ?r = 200" by simp
  have a5: "\<not> ci_substring ''HTTP ERROR 429'' (response_text ?r)"
    by (rule not_ci_substring_by_test) code_simp
  have a6: "\<not> ci_substring ''Too Many Requests'' (response_text ?r)"
    by (rule not_ci_substring_by_test) code_simp
  have b0: "statusAt env5 ''u'' (length (requests initialWorld)) = Some 429" by code_simp
  have b1: "statusAt env5 ''u'' (length (requests initialWorld) + 1) = Some 429" by code_simp
  have b2: "statusAt env5 ''u'' (length (requests initialWorld) + 2) = Some 429" by code_simp
  have b3: "statusAt env5 ''u'' (length (requests initialWorld) + 3) = Some 429" by code_simp
  have b4: "statusAt env5 ''u'' (length (requests initialWorld) + 4) = Some 429" by code_simp
  have c0: "statusAt envMarked ''u'' (length (requests initialWorld)) = Some 429" by code_simp
  have c1: "statusAt envMarked ''u'' (length (requests initialWorld) + 1) = Some 429"
    by code_simp
  have c2: "statusAt envMarked ''u'' (length (requests initialWorld) + 2) = Some 429"
    by code_simp
  have c3: "fetch envMarked ''u'' (length (requests initialWorld) + 3) = Inr ?q" by code_simp
  have c4: "response_status ?q = 200" by simp
  have c5: "ci_substring ''Too Many Requests'' ''Error: too many requests''"
    by (rule ci_substring_by_test) code_simp
  then have c5': "ci_substring ''Too Many Requests'' (response_text ?q)" by simp
  have c6: "statusAt envMarked ''u'' (length (requests initialWorld) + 4) = Some 429"
    by code_simp
  have A: "fst (fetchText env3 ''u'' 1 initialWorld) = Inr (response_text ?r)"
    using fetchText_retry_cap [of env3 "''u''" initialWorld ?r] a0 a1 a2 a3 a4 a5 a6 by blast
  have B: "fst (fetchText env5 ''u'' 1 initialWorld) = Inl (RetriesExhausted ''u'')
           \<and> length (requests (snd (fetchText env5 ''u'' 1 initialWorld)))
               = length (requests initialWorld) + 5"
    using fetchText_retry_cap [of env5 "''u''" initialWorld] b0 b1 b2 b3 b4 by blast
  have C: "fst (fetchText envMarked ''u'' 1 initialWorld) = Inl (RetriesExhausted ''u'')
           \<and> length (requests (snd (fetchText envMarked ''u'' 1 initialWorld)))
               = length (requests initialWorld) + 5
           \<and> delays (snd (fetchText envMarked ''u'' 1 initialWorld))
               = delays initialWorld @ [3000, 6000, 9000, 16000]"
    using fetchText_retry_cap [of envMarked "''u''" initialWorld ?q] c0 c1 c2 c3 c4 c5' c6
    by blast
  from a3 have a3': "fetch env3 ''u'' (length (requests initialWorld) + 3) = http 200 ''listing''"
    by (simp add: http_def)
  from c3 have c3': "fetch envMarked ''u'' (length (requests initialWorld) + 3)
                       = http 200 ''Error: too many requests''"
    by (simp add: http_def)
  from A have A': "fst (fetchText env3 ''u'' 1 initialWorld) = Inr ''listing''" by simp
  from a0 a1 a2 a3' A' b0 b1 b2 b3 b4 B c0 c1 c2 c3' c5 c6 C show ?thesis by blast
qed

lemma rateLimitBody_example: "rateLimitBody ''Too Many Requests''"
  by code_simp

text \<open>
  The claim as first stated fails: after three answers with status 429, an answer with
  status 200 whose body is \<^verbatim>\<open>Too Many Requests\<close> is not returned. The call waits
  16000 ms and tries a fifth time; here the fifth answer has status 429, and the call
  fails with the error for exhausted retries.
\<close>

theorem fetchText_200_rate_limit_body_retried:
  "fetchText (scriptedEnv [http 429 [], http 429 [], http 429 [],
                           http 200 ''Too Many Requests'', http 429 []])
     ''u'' 1 initialWorld
   = (Inl (RetriesExhausted ''u''),
      \<lparr>JOBS = [], requests = [''u'', ''u'', ''u'', ''u'', ''u''],
       delays = [3000, 6000, 9000, 16000], clockReads = 0\<rparr>)"
  by (simp add: fetchText.simps scriptedEnv_def http_def initialWorld_def delay_def Let_def
        rateLimitBody_example)

subsection \<open>The country count\<close>

lemma countLoop_filter:
  "countLoop cname js n
     = n + length (filter (\<lambda>job. ci_substring cname (job_country job)) js)"
  by (induction js arbitrary: n) (simp_all add: str_includes_lower_iff)

lemma listingLoop_accept:
  assumes "passesFilters srch raw w"
  shows "listingLoop env srch (raw # rest) w =
           (if countByCountry (JOBS (addListing env raw w)) (country srch) \<ge> maxJobs srch
            then (True, addListing env raw w)
            else listingLoop env srch rest (addListing env raw w))"
  using assms by (simp add: passesFilters_def validListing_def Let_def listingLoop.simps)

text \<open>
  Claim C10. \<^verbatim>\<open>countByCountry\<close> counts the stored entries whose country contains the
  given name as a case-insensitive substring. Both checks of a cap read this count: the
  top-level loop skips a search whose cap is reached by such entries, and the loop over the
  listings leaves the search as soon as the entries that contain the country of the
  search reach its cap.
\<close>

theorem countByCountry_ci_containment:
  "countByCountry m cname
     = length (filter (\<lambda>job. ci_substring cname (job_country job)) (map snd m))
   \<and> (maxJobs srch \<le> length (filter (\<lambda>job. ci_substring (country srch) (job_country job))
                                  (map snd (JOBS w)))
      \<longrightarrow> mainLoop env (srch # searches) w = mainLoop env searches w)
   \<and> (passesFilters srch raw w
       \<and> maxJobs srch \<le> length (filter (\<lambda>job. ci_substring (country srch) (job_country job))
                                    (map snd (JOBS (addListing env raw w))))
      \<longrightarrow> listingLoop env srch (raw # rest) w = (True, addListing env raw w))"
proof (intro conjI impI)
  show eq: "countByCountry m cname
              = length (filter (\<lambda>job. ci_substring cname (job_country job)) (map snd m))"
    for m cname
    by (simp add: countByCountry_def countLoop_filter)
  show "mainLoop env (srch # searches) w = mainLoop env searches w"
    if "maxJobs srch \<le> length (filter (\<lambda>job. ci_substring (country srch) (job_country job))
                                  (map snd (JOBS w)))"
    using that by (simp add: eq)
  show "listingLoop env srch (raw # rest) w = (True, addListing env raw w)"
    if "passesFilters srch raw w
        \<and> maxJobs srch \<le> length (filter (\<lambda>job. ci_substring (country srch) (job_country job))
                                     (map snd (JOBS (addListing env raw w))))"
    using that by (simp add: listingLoop_accept eq)
qed

text \<open>
  In the witness an entry whose country is \<open>Northern Ireland\<close> uses up the cap of one of a
  search for \<open>Ireland\<close>, in the top-level check and in the check after an insertion.
\<close>

theorem countByCountry_ci_containment_witness:
  "countByCountry (JOBS northernWorld) ''Ireland'' = 1
   \<and> maxJobs irelandSearch
       \<le> length (filter (\<lambda>job. ci_substring (country irelandSearch) (job_country job))
                    (map snd (JOBS northernWorld)))
   \<and> mainLoop hiringEnv [irelandSearch] northernWorld = northernWorld
   \<and> passesFilters irelandSearch northernRaw initialWorld
   \<and> maxJobs irelandSearch
       \<le> length (filter (\<lambda>job. ci_substring (country irelandSearch) (job_country job))
                    (map snd (JOBS (addListing hiringEnv northernRaw initialWorld))))
   \<and> job_country (snd (hd (JOBS (addListing hiringEnv northernRaw initialWorld))))
       = ''Northern Ireland''
   \<and> listingLoop hiringEnv irelandSearch [northernRaw, northernRaw] initialWorld
       = (True, addListing hiringEnv northernRaw initialWorld)"
proof -
  have c1: "countByCountry (JOBS northernWorld) ''Ireland'' = 1" by code_simp
  have c2: "countByCountry (JOBS northernWorld) (country irelandSearch) = 1" by code_simp
  have c3: "countByCountry (JOBS (addListing hiringEnv northernRaw initialWorld))
              (country irelandSearch) = 1"
    by code_simp
  have mx: "maxJobs irelandSearch = 1" by (simp add: irelandSearch_def)
  have h1: "maxJobs irelandSearch
              \<le> length (filter (\<lambda>job. ci_substring (country irelandSearch) (job_country job))
                           (map snd (JOBS northernWorld)))"
    using countByCountry_ci_containment [where m = "JOBS northernWorld"
        and cname = "country irelandSearch"] c2 mx by simp
  have p: "passesFilters irelandSearch northernRaw initialWorld" by code_simp
  have h2: "maxJobs irelandSearch
              \<le> length (filter (\<lambda>job. ci_substring (country irelandSearch) (job_country job))
                           (map snd (JOBS (addListing hiringEnv northernRaw initialWorld))))"
    using countByCountry_ci_containment
        [where m = "JOBS (addListing hiringEnv northernRaw initialWorld)"
           and cname = "country irelandSearch"] c3 mx by simp
  have m: "mainLoop hiringEnv [irelandSearch] northernWorld = northernWorld"
    using countByCountry_ci_containment [where srch = irelandSearch and w = northernWorld
        and env = hiringEnv and searches = "[]"] h1 by simp
  have l: "listingLoop hiringEnv irelandSearch [northernRaw, northernRaw] initialWorld
             = (True, addListing hiringEnv northernRaw initialWorld)"
    using countByCountry_ci_containment [where srch = irelandSearch and w = initialWorld
        and env = hiringEnv and raw = northernRaw and rest = "[northernRaw]"] p h2 by blast
  have n: "job_country (snd (hd (JOBS (addListing hiringEnv northernRaw initialWorld))))
             = ''Northern Ireland''"
    by code_simp
  from c1 h1 m p h2 n l show ?thesis by blast
qed

subsection \<open>Visa detection\<close>

text \<open>
  Claim C1. The claim expects the status \<open>No\<close> for a detail page whose whole text is
  \<open>no visa sponsorship\<close>. The script answers \<open>Yes\<close>: the positive pattern is tried first and
  finds \<open>visa sponsorship\<close> inside the negative phrase.
\<close>

theorem detectVisa_no_visa_sponsorship:
  "fst (detectVisa (scriptedEnv [http 200 ''no visa sponsorship''])
          ''https://www.linkedin.com/jobs/view/1'' initialWorld)
   = Inr \<lparr>status = Yes, evidence = Some ''no visa sponsorship'',
           detailText = ''no visa sponsorship''\<rparr>"
  by code_simp

lemma lit_Cons: "lit (c # l) = Seq (Cls (\<lambda>d. d = c)) (lit l)"
  by (simp add: lit_def)

lemma lit_Nil: "lit [] = Eps"
  by (simp add: lit_def)

lemma rxm_lit_prefix: "rxm (lit l) (p, l @ s, caps) \<noteq> []"
  by (induction l arbitrary: p) (simp_all add: lit_Nil lit_Cons)

lemma rx_search_found:
  assumes "\<And>p. rxm r (p, s2, []) \<noteq> []"
  shows "rx_search r p (s1 @ s2) \<noteq> None"
proof (induction s1 arbitrary: p)
  case Nil
  from assms [of p] show ?case
    by (subst rx_search.simps) (auto split: list.splits)
next
  case (Cons c s1)
  from Cons.IH [of "Some c"] show ?case
    by (subst rx_search.simps) (auto split: list.splits)
qed

lemma rxm_lit_exact:
  "rxm (lit l) (p, l @ s, caps) = [(if l = [] then p else Some (last l), s, caps)]"
  by (induction l arbitrary: p) (simp_all add: lit_Nil lit_Cons)

lemma positiveRx_visa_sponsorship:
  "rxm positiveRx (p, ''visa sponsorship'' @ s, []) \<noteq> []"
proof -
  have a: "rxm (lit ''visa '') (p, ''visa '' @ (''sponsorship'' @ s), [])
             = [(Some CHR '' '', ''sponsorship'' @ s, [])]"
    by (simp only: rxm_lit_exact) simp
  have b: "rxm (lit ''sponsorship'') (Some CHR '' '', ''sponsorship'' @ s, []) \<noteq> []"
    by (rule rxm_lit_prefix)
  have "rxm (Seq (lit ''visa '') (Grp 2 (alts [lit ''sponsorship'', lit ''support'',
              lit ''assistance'', lit ''provided'', lit ''relocation'']))) (p, ''visa sponsorship'' @ s, []) \<noteq> []"
    using a b by simp
  then show ?thesis by (simp add: positiveRx_def)
qed

text \<open>
  The same holds for every detail page: wherever the phrase \<open>no visa sponsorship\<close> occurs,
  the positive pattern matches, so this alternative of the negative pattern never decides
  the status.
\<close>

lemma visaFromText_shadowed:
  assumes "str_includes (toLowerCase body) ''no visa sponsorship''"
      and "pop (split ''Markdown Content:'' text) = Some body"
  shows "status (visaFromText text) = Yes"
proof -
  from assms(1) obtain pre post where "toLowerCase body = pre @ ''no visa sponsorship'' @ post"
    by (auto simp: str_includes_iff)
  then have "toLowerCase body = (pre @ ''no '') @ (''visa sponsorship'' @ post)" by simp
  then have "rx_match positiveRx (toLowerCase body) \<noteq> None"
    unfolding rx_match_def using rx_search_found [OF positiveRx_visa_sponsorship] by metis
  then show ?thesis using assms(2) by (auto simp: visaFromText_def Let_def)
qed

subsection \<open>The sentinel and the parser\<close>

lemma split_go_no_sep:
  "\<not> str_includes s sep \<Longrightarrow> split_go sep cur s = [rev cur @ s]"
proof (induction s arbitrary: cur)
  case Nil
  then show ?case by simp
next
  case (Cons c s)
  then show ?case by simp
qed

lemma split_no_sep: "sep \<noteq> [] \<Longrightarrow> \<not> str_includes s sep \<Longrightarrow> split sep s = [s]"
  by (simp add: split_def split_go_no_sep)

lemma split_go_leading_sep:
  "sep \<noteq> [] \<Longrightarrow> split_go sep [] (sep @ s) = [] # split_go sep [] s"
  by (cases sep) simp_all

lemma split_not_Nil: "sep \<noteq> [] \<Longrightarrow> split sep s \<noteq> []"
proof -
  have "split_go sep cur s \<noteq> []" for cur
    by (induction sep cur s rule: split_go.induct) simp_all
  then show "sep \<noteq> [] \<Longrightarrow> split sep s \<noteq> []" by (simp add: split_def)
qed

lemma JOBS_fetchText: "JOBS (snd (fetchText env url attempt w)) = JOBS w"
proof (induction env url attempt w rule: fetchText.induct)
  case (1 env url attempt w)
  show ?case
    apply (subst fetchText.simps)
    using 1
    apply (auto simp: Let_def split: sum.splits)
    done
qed

text \<open>
  Claim C2, as amended. On a document without the sentinel \<^verbatim>\<open>parseMarkdown\<close> parses the
  whole document, as it parses the same text put after the sentinel. It is the loop over
  the pages that tests a fetched page for the sentinel: at a page without it the search
  ends, and the map is as it was before the page.
\<close>

theorem parseMarkdown_without_sentinel:
  assumes "\<not> str_includes markdown ''Markdown Content:''"
  shows "parseMarkdown markdown srch = parseMarkdown (''Markdown Content:'' @ markdown) srch
         \<and> (start \<le> MAX_START \<and> fst (fetchText env (searchUrl srch start) 1 w) = Inr markdown
            \<longrightarrow> pageLoop env srch start w = snd (fetchText env (searchUrl srch start) 1 w)
                \<and> JOBS (pageLoop env srch start w) = JOBS w)"
proof -
  have a: "split ''Markdown Content:'' markdown = [markdown]"
    using assms by (simp add: split_no_sep)
  have "split_go ''Markdown Content:'' [] (''Markdown Content:'' @ markdown)
          = [] # split_go ''Markdown Content:'' [] markdown"
    by (rule split_go_leading_sep) simp
  then have b: "split ''Markdown Content:'' (''Markdown Content:'' @ markdown) = [[], markdown]"
    using a by (simp add: split_def)
  have c: "parseMarkdown markdown srch = parseMarkdown (''Markdown Content:'' @ markdown) srch"
    unfolding parseMarkdown_def by (simp only: a b) (simp add: pop_def)
  have d: "pageLoop env srch start w = snd (fetchText env (searchUrl srch start) 1 w)"
    if "start \<le> MAX_START" and "fst (fetchText env (searchUrl srch start) 1 w) = Inr markdown"
    using that assms by (subst pageLoop.simps) (auto split: prod.splits sum.splits)
  from c d show ?thesis by (auto simp: JOBS_fetchText)
qed

theorem parseMarkdown_without_sentinel_witness:
  "\<not> str_includes bareListing ''Markdown Content:''
   \<and> parseMarkdown bareListing belgiumSearch
       = parseMarkdown (''Markdown Content:'' @ bareListing) belgiumSearch
   \<and> 0 \<le> MAX_START
   \<and> fst (fetchText bareEnv (searchUrl belgiumSearch 0) 1 initialWorld) = Inr bareListing
   \<and> pageLoop bareEnv belgiumSearch 0 initialWorld
       = snd (fetchText bareEnv (searchUrl belgiumSearch 0) 1 initialWorld)
   \<and> JOBS (pageLoop bareEnv belgiumSearch 0 initialWorld) = JOBS initialWorld"
proof -
  have a: "\<not> str_includes bareListing ''Markdown Content:''" by code_simp
  have b: "0 \<le> MAX_START" by simp
  have c: "fst (fetchText bareEnv (searchUrl belgiumSearch 0) 1 initialWorld) = Inr bareListing"
    by code_simp
  from parseMarkdown_without_sentinel [OF a, of belgiumSearch 0 bareEnv initialWorld] a b c
  show ?thesis by blast
qed

text \<open>
  The claim as first stated fails: the document of the witness holds no sentinel, and
  \<^verbatim>\<open>parseMarkdown\<close> returns its listing.
\<close>

theorem parseMarkdown_without_sentinel_parses:
  "\<not> str_includes bareListing ''Markdown Content:''
   \<and> parseMarkdown bareListing belgiumSearch
     = [\<lparr>title = ''Marketing Manager'', company = ''Acme'',
         jobUrl = ''https://www.linkedin.com/jobs/view/123?refId=abc'',
         companyUrl = Some ''https://www.linkedin.com/company/acme'',
         locationLine = ''Brussels, Brussels Region, Belgium'',
         postedText = Some ''2 days ago'', metaTags = [''2 days ago''],
         countryGuess = ''Belgium'', search = belgiumSearch\<rparr>]"
  by code_simp

subsection \<open>The loop over the listings\<close>

lemma mapSet_fresh: "\<not> mapHas m k \<Longrightarrow> mapSet m k v = m @ [(k, v)]"
  by (induction m) (auto simp: mapHas_def)

lemma clockReads_delay [simp]: "clockReads (delay ms w) = clockReads w"
  by (simp add: delay_def)

lemma clockReads_fetchText: "clockReads (snd (fetchText env url attempt w)) = clockReads w"
proof (induction env url attempt w rule: fetchText.induct)
  case (1 env url attempt w)
  show ?case
    apply (subst fetchText.simps)
    using 1
    apply (auto simp: Let_def split: sum.splits)
    done
qed

lemma JOBS_detectVisa: "JOBS (snd (detectVisa env url w)) = JOBS w"
  using JOBS_fetchText [of env "''https://r.jina.ai/'' @ url" 1 w]
  by (auto simp: detectVisa_def Let_def split: prod.splits sum.splits)

lemma clockReads_detectVisa: "clockReads (snd (detectVisa env url w)) = clockReads w"
  using clockReads_fetchText [of env "''https://r.jina.ai/'' @ url" 1 w]
  by (auto simp: detectVisa_def Let_def split: prod.splits sum.splits)

lemma JOBS_addListing:
  "JOBS (addListing env raw w) =
     mapSet (JOBS w) (canonicalUrl (jobUrl raw))
       (let visaInfo = (case fst (detectVisa env (jobUrl raw) (delay 800 w)) of
                          Inr v \<Rightarrow> v
                        | Inl e \<Rightarrow> \<lparr>status = NotMentioned, evidence = None, detailText = []\<rparr>)
        in makeEntry raw visaInfo (buildMatchReasons raw (detailText visaInfo))
             (clock env (clockReads w)))"
  using JOBS_detectVisa [of env "jobUrl raw" "delay 800 w"]
    clockReads_detectVisa [of env "jobUrl raw" "delay 800 w"]
  by (auto simp: addListing_def readClock_def Let_def makeEntry_def split: prod.splits)

text \<open>
  With an empty detail text the match reasons depend on the listing through its title
  and the label of its search only: they are the reason that names the search, followed
  by the reasons of the skill rules, in the order of the rules, one of whose keywords
  occurs in the title as a case-insensitive substring.
\<close>

lemma fold_setAdd_filter:
  "distinct (map snd rules) \<Longrightarrow> set (map snd rules) \<inter> set acc = {} \<Longrightarrow>
   fold (\<lambda>rule rs. if P rule then setAdd rs (snd rule) else rs) rules acc
     = acc @ map snd (filter P rules)"
proof (induction rules arbitrary: acc)
  case Nil
  then show ?case by simp
next
  case (Cons rule rules)
  from Cons.prems have fresh: "snd rule \<notin> set acc" and d: "distinct (map snd rules)"
    and n: "snd rule \<notin> set (map snd rules)" and disj: "set (map snd rules) \<inter> set acc = {}"
    by auto
  show ?case
  proof (cases "P rule")
    case True
    have "set (map snd rules) \<inter> set (acc @ [snd rule]) = {}" using n disj by auto
    from Cons.IH [OF d this] True fresh show ?thesis by (simp add: setAdd_def)
  next
    case False
    from Cons.IH [OF d disj] False show ?thesis by simp
  qed
qed

lemma str_includes_trailing:
  assumes "kw \<noteq> []" and "last kw \<noteq> c"
  shows "str_includes (s @ [c]) kw \<longleftrightarrow> str_includes s kw"
proof
  assume "str_includes (s @ [c]) kw"
  then obtain pre post where eq: "s @ [c] = pre @ kw @ post" by (auto simp: str_includes_iff)
  show "str_includes s kw"
  proof (cases post rule: rev_cases)
    case Nil
    with eq have "s @ [c] = (pre @ butlast kw) @ [last kw]" using assms(1) by simp
    then have "c = last kw" by (simp only: append1_eq_conv)
    with assms(2) show ?thesis by simp
  next
    case (snoc post' d)
    with eq have "s @ [c] = (pre @ kw @ post') @ [d]" by simp
    then have "s = pre @ kw @ post'" by (simp only: append1_eq_conv)
    then show ?thesis by (auto simp: str_includes_iff)
  qed
next
  assume "str_includes s kw"
  then obtain pre post where "s = pre @ kw @ post" by (auto simp: str_includes_iff)
  then have "s @ [c] = pre @ kw @ (post @ [c])" by simp
  then show "str_includes (s @ [c]) kw" unfolding str_includes_iff by blast
qed

lemma skillRules_keywords:
  assumes "rule \<in> set skillRules" and "kw \<in> set (fst rule)"
  shows "kw \<noteq> [] \<and> last kw \<noteq> CHR '' '' \<and> toLowerCase kw = kw"
proof -
  have "list_all (\<lambda>rule. list_all (\<lambda>kw. kw \<noteq> [] \<and> last kw \<noteq> CHR '' '' \<and> toLowerCase kw = kw)
                            (fst rule)) skillRules"
    by code_simp
  with assms show ?thesis by (auto simp: list_all_iff)
qed

lemma skillRules_reasons:
  "distinct (map snd skillRules)" "set (map snd skillRules) \<inter> set [''Matches '' @ l] = {}"
  by (simp_all add: skillRules_def)

lemma buildMatchReasons_title_only:
  "buildMatchReasons raw [] =
     (''Matches '' @ label (search raw))
       # map snd (filter (\<lambda>rule. list_ex (\<lambda>kw. ci_substring kw (title raw)) (fst rule))
                    skillRules)"
proof -
  let ?corpus = "toLowerCase (title raw @ '' '')"
  have corpus: "?corpus = toLowerCase (title raw) @ [CHR '' '']"
    by (simp add: toLowerCase_def lowerChar_def isUpper_def)
  have kw: "str_includes ?corpus kw \<longleftrightarrow> ci_substring kw (title raw)"
    if "rule \<in> set skillRules" and "kw \<in> set (fst rule)" for rule kw
  proof -
    from skillRules_keywords [OF that] have k: "kw \<noteq> []" "last kw \<noteq> CHR '' ''"
      "toLowerCase kw = kw"
      by blast+
    have "str_includes ?corpus kw \<longleftrightarrow> str_includes (toLowerCase (title raw)) kw"
      unfolding corpus using k(1,2) by (rule str_includes_trailing)
    also have "\<dots> \<longleftrightarrow> ci_substring kw (title raw)"
      using str_includes_lower_iff [of "title raw" kw] by (simp only: k(3))
    finally show ?thesis .
  qed
  have f: "filter (\<lambda>rule. list_ex (\<lambda>kw. str_includes ?corpus kw) (fst rule)) skillRules
         = filter (\<lambda>rule. list_ex (\<lambda>kw. ci_substring kw (title raw)) (fst rule)) skillRules"
  proof (rule filter_cong [OF refl])
    fix rule
    assume "rule \<in> set skillRules"
    then show "list_ex (\<lambda>kw. str_includes ?corpus kw) (fst rule)
               = list_ex (\<lambda>kw. ci_substring kw (title raw)) (fst rule)"
      using kw [of rule] unfolding list_ex_iff by blast
  qed
  have "buildMatchReasons raw [] =
          fold (\<lambda>rule rs. if list_ex (\<lambda>kw. str_includes ?corpus kw) (fst rule)
                           then setAdd rs (snd rule) else rs)
            skillRules [''Matches '' @ label (search raw)]"
    by (simp add: buildMatchReasons_def setAdd_def Let_def)
  also have "\<dots> = [''Matches '' @ label (search raw)]
                 @ map snd (filter (\<lambda>rule. list_ex (\<lambda>kw. str_includes ?corpus kw) (fst rule))
                              skillRules)"
    by (rule fold_setAdd_filter [OF skillRules_reasons])
  finally show ?thesis by (simp only: f append_Cons append_Nil)
qed

text \<open>
  Claim C9. When \<^verbatim>\<open>detectVisa\<close> fails for a listing that passed the filters, the listing
  still becomes an entry: the entry is appended to the map under the canonical URL, its
  visa status is \<open>NotMentioned\<close> with no evidence, and its match reasons are those of the
  title with an empty detail text, that is the reason that names the search and then the
  reason of every skill rule one of whose keywords occurs in the title. The loop then
  goes on as after any insertion: it leaves the search when the cap of the country is
  reached, and continues with the next listing otherwise.
\<close>

theorem visa_failure_degrades:
  assumes "passesFilters srch raw w"
      and "fst (detectVisa env (jobUrl raw) (delay 800 w)) = Inl e"
  shows "JOBS (addListing env raw w) =
           JOBS w @ [(canonicalUrl (jobUrl raw),
                      makeEntry raw \<lparr>status = NotMentioned, evidence = None, detailText = []\<rparr>
                        (buildMatchReasons raw []) (clock env (clockReads w)))]
         \<and> job_visa (snd (last (JOBS (addListing env raw w))))
             = \<lparr>status = NotMentioned, evidence = None\<rparr>
         \<and> job_matchReasons (snd (last (JOBS (addListing env raw w))))
             = buildMatchReasons raw []
         \<and> job_matchReasons (snd (last (JOBS (addListing env raw w))))
             = (''Matches '' @ label (search raw))
                 # map snd (filter (\<lambda>rule. list_ex (\<lambda>kw. ci_substring kw (title raw))
                                                (fst rule))
                              skillRules)
         \<and> listingLoop env srch (raw # rest) w =
             (if maxJobs srch \<le> countByCountry (JOBS (addListing env raw w)) (country srch)
              then (True, addListing env raw w)
              else listingLoop env srch rest (addListing env raw w))"
proof -
  from assms(1) have fresh: "\<not> mapHas (JOBS w) (canonicalUrl (jobUrl raw))"
    by (simp add: passesFilters_def)
  have a: "JOBS (addListing env raw w) =
           JOBS w @ [(canonicalUrl (jobUrl raw),
                      makeEntry raw \<lparr>status = NotMentioned, evidence = None, detailText = []\<rparr>
                        (buildMatchReasons raw []) (clock env (clockReads w)))]"
    using assms(2) by (simp add: JOBS_addListing mapSet_fresh [OF fresh])
  have b: "listingLoop env srch (raw # rest) w =
             (if maxJobs srch \<le> countByCountry (JOBS (addListing env raw w)) (country srch)
              then (True, addListing env raw w)
              else listingLoop env srch rest (addListing env raw w))"
    by (rule listingLoop_accept [OF assms(1)])
  from a have c: "job_matchReasons (snd (last (JOBS (addListing env raw w))))
                    = buildMatchReasons raw []"
    by (simp add: makeEntry_def)
  from c have d: "job_matchReasons (snd (last (JOBS (addListing env raw w))))
             = (''Matches '' @ label (search raw))
                 # map snd (filter (\<lambda>rule. list_ex (\<lambda>kw. ci_substring kw (title raw))
                                                (fst rule))
                              skillRules)"
    by (simp only: buildMatchReasons_title_only)
  from a have v: "job_visa (snd (last (JOBS (addListing env raw w))))
             = \<lparr>status = NotMentioned, evidence = None\<rparr>"
    by (simp add: makeEntry_def)
  from a v c d b show ?thesis by blast
qed

text \<open>
  In the witness the title fires two skill rules, and the body of the failed answer holds
  keywords of three other rules, which would fire if that body were the detail text.
\<close>

theorem visa_failure_degrades_witness:
  "passesFilters belgiumSearch campaignRaw initialWorld
   \<and> fst (detectVisa failingEnv (jobUrl campaignRaw) (delay 800 initialWorld))
       = Inl (HttpError ''https://r.jina.ai/https://www.linkedin.com/jobs/view/123?refId=abc''
                500 [])
   \<and> map fst (JOBS (addListing failingEnv campaignRaw initialWorld))
       = [''https://www.linkedin.com/jobs/view/123'']
   \<and> job_visa (snd (last (JOBS (addListing failingEnv campaignRaw initialWorld))))
       = \<lparr>status = NotMentioned, evidence = None\<rparr>
   \<and> job_matchReasons (snd (last (JOBS (addListing failingEnv campaignRaw initialWorld))))
       = [''Matches Digital Marketing (Belgium)'',
          ''Direct social media and community management responsibilities'',
          ''Owns campaign planning and execution'']
   \<and> buildMatchReasons campaignRaw ''SEO video newsletter''
       = [''Matches Digital Marketing (Belgium)'',
          ''Direct social media and community management responsibilities'',
          ''High volume content creation and storytelling focus'',
          ''Video production/editing skills explicitly requested'',
          ''SEO optimisation responsibilities included'',
          ''Owns campaign planning and execution'']
   \<and> listingLoop failingEnv belgiumSearch [campaignRaw, campaignRaw] initialWorld
       = (False, addListing failingEnv campaignRaw initialWorld)"
proof -
  have p: "passesFilters belgiumSearch campaignRaw initialWorld" by code_simp
  have f: "fst (detectVisa failingEnv (jobUrl campaignRaw) (delay 800 initialWorld))
             = Inl (HttpError ''https://r.jina.ai/https://www.linkedin.com/jobs/view/123?refId=abc''
                      500 [])"
    by code_simp
  note t = visa_failure_degrades [OF p f, of "[campaignRaw]"]
  have k: "map fst (JOBS (addListing failingEnv campaignRaw initialWorld))
             = [''https://www.linkedin.com/jobs/view/123'']"
    by code_simp
  have r: "buildMatchReasons campaignRaw []
             = [''Matches Digital Marketing (Belgium)'',
                ''Direct social media and community management responsibilities'',
                ''Owns campaign planning and execution'']"
    by code_simp
  have s: "buildMatchReasons campaignRaw ''SEO video newsletter''
             = [''Matches Digital Marketing (Belgium)'',
                ''Direct social media and community management responsibilities'',
                ''High volume content creation and storytelling focus'',
                ''Video production/editing skills explicitly requested'',
                ''SEO optimisation responsibilities included'',
                ''Owns campaign planning and execution'']"
    by code_simp
  have c: "\<not> maxJobs belgiumSearch
              \<le> countByCountry (JOBS (addListing failingEnv campaignRaw initialWorld))
                   (country belgiumSearch)"
    by code_simp
  have d: "listingLoop failingEnv belgiumSearch [campaignRaw]
             (addListing failingEnv campaignRaw initialWorld)
           = (False, addListing failingEnv campaignRaw initialWorld)"
    by code_simp
  from t have t2: "job_visa (snd (last (JOBS (addListing failingEnv campaignRaw initialWorld))))
                     = \<lparr>status = NotMentioned, evidence = None\<rparr>"
    and t3: "job_matchReasons
               (snd (last (JOBS (addListing failingEnv campaignRaw initialWorld))))
               = buildMatchReasons campaignRaw []"
    and t4: "listingLoop failingEnv belgiumSearch [campaignRaw, campaignRaw] initialWorld =
               (if maxJobs belgiumSearch
                     \<le> countByCountry (JOBS (addListing failingEnv campaignRaw initialWorld))
                          (country belgiumSearch)
                then (True, addListing failingEnv campaignRaw initialWorld)
                else listingLoop failingEnv belgiumSearch [campaignRaw]
                       (addListing failingEnv campaignRaw initialWorld))"
    by blast+
  from t3 r have t3': "job_matchReasons
                         (snd (last (JOBS (addListing failingEnv campaignRaw initialWorld))))
                       = [''Matches Digital Marketing (Belgium)'',
                          ''Direct social media and community management responsibilities'',
                          ''Owns campaign planning and execution'']"
    by (rule trans)
  from t4 c d have t4': "listingLoop failingEnv belgiumSearch [campaignRaw, campaignRaw]
                           initialWorld
                         = (False, addListing failingEnv campaignRaw initialWorld)"
    by (simp only: if_False)
  from p f k t2 t3' s t4' show ?thesis by blast
qed

lemma makeEntry_fields [simp]:
  "job_id (makeEntry raw v rs now) = canonicalUrl (jobUrl raw)"
  "job_applyUrl (makeEntry raw v rs now) = canonicalUrl (jobUrl raw)"
  "job_country (makeEntry raw v rs now) = countryGuess raw"
  by (simp_all add: makeEntry_def)

lemma JOBS_addListing_fresh:
  assumes "\<not> mapHas (JOBS w) (canonicalUrl (jobUrl raw))"
  obtains entry where "JOBS (addListing env raw w) = JOBS w @ [(canonicalUrl (jobUrl raw), entry)]"
    and "job_id entry = canonicalUrl (jobUrl raw)"
    and "job_applyUrl entry = canonicalUrl (jobUrl raw)"
    and "job_country entry = countryGuess raw"
  using assms by (simp add: JOBS_addListing mapSet_fresh Let_def)

lemma countByCountry_snoc:
  "countByCountry (m @ [(k, e)]) cname =
     countByCountry m cname
     + (if str_includes (toLowerCase (job_country e)) (toLowerCase cname) then 1 else 0)"
  by (simp add: countByCountry_def countLoop_filter str_includes_lower_iff)

lemma listingLoop_skip_duplicate:
  "mapHas (JOBS w) (canonicalUrl (jobUrl raw))
     \<Longrightarrow> listingLoop env srch (raw # rest) w = listingLoop env srch rest w"
  by (simp add: listingLoop.simps)

lemma listingLoop_full:
  "mapSize (JOBS w) \<ge> 200 \<Longrightarrow> listingLoop env srch xs w = (False, w)"
  by (induction xs) (simp_all add: listingLoop.simps)

lemma listingLoop_append:
  "listingLoop env srch (xs @ ys) w =
     (case listingLoop env srch xs w of
        (True, w') \<Rightarrow> (True, w')
      | (False, w') \<Rightarrow> listingLoop env srch ys w')"
proof (induction xs arbitrary: w)
  case Nil
  then show ?case by (simp add: listingLoop.simps)
next
  case (Cons raw xs)
  show ?case
  proof (cases "mapSize (JOBS w) \<ge> 200")
    case True
    then show ?thesis by (simp add: listingLoop_full)
  next
    case False
    then show ?thesis using Cons.IH
      by (simp add: listingLoop.simps Let_def)
  qed
qed

text \<open>
  Claim C7. When the entry of a listing that passed the filters brings the count for the
  country of the search up to the cap, the loop over the listings leaves the search at
  once, whatever listings follow; and the loop over the pages then returns the world as it
  is right after the insertion, so nothing of the rest of the page and no further page is
  touched. In particular, for a search for Belgium with a cap of two, an empty map and a
  first page that parses to three valid listings with three different canonical URLs, the
  search ends with the entries of the first two listings, in the world as it is after
  the second insertion.
\<close>

theorem processSearch_returns_at_cap:
  "(passesFilters srch raw w
    \<and> maxJobs srch \<le> countByCountry (JOBS (addListing env raw w)) (country srch)
    \<longrightarrow> listingLoop env srch (raw # rest) w = (True, addListing env raw w))
   \<and> (start \<le> MAX_START
    \<and> fetchText env (searchUrl srch start) 1 w = (Inr page, w1)
    \<and> str_includes page ''Markdown Content:''
    \<and> parseMarkdown page srch = earlier @ raw # rest
    \<and> listingLoop env srch earlier w1 = (False, w2)
    \<and> passesFilters srch raw w2
    \<and> maxJobs srch \<le> countByCountry (JOBS (addListing env raw w2)) (country srch)
    \<longrightarrow> pageLoop env srch start w = addListing env raw w2)
   \<and> (country srch = ''Belgium'' \<and> maxJobs srch = 2 \<and> JOBS w = []
    \<and> fetchText env (searchUrl srch 0) 1 w = (Inr page, w1)
    \<and> str_includes page ''Markdown Content:''
    \<and> parseMarkdown page srch = [r1, r2, r3]
    \<and> validListing srch r1 \<and> validListing srch r2 \<and> validListing srch r3
    \<and> distinct [canonicalUrl (jobUrl r1), canonicalUrl (jobUrl r2), canonicalUrl (jobUrl r3)]
    \<longrightarrow> processSearch env srch w = addListing env r2 (addListing env r1 w1)
        \<and> map fst (JOBS (processSearch env srch w))
            = [canonicalUrl (jobUrl r1), canonicalUrl (jobUrl r2)])"
proof (intro conjI impI)
  show one: "listingLoop env srch (raw # rest) w = (True, addListing env raw w)"
    if "passesFilters srch raw w
        \<and> maxJobs srch \<le> countByCountry (JOBS (addListing env raw w)) (country srch)"
    for raw rest w
    using that by (simp add: listingLoop_accept)
  show two: "pageLoop env srch start w = addListing env raw w2"
    if h: "start \<le> MAX_START
      \<and> fetchText env (searchUrl srch start) 1 w = (Inr page, w1)
      \<and> str_includes page ''Markdown Content:''
      \<and> parseMarkdown page srch = earlier @ raw # rest
      \<and> listingLoop env srch earlier w1 = (False, w2)
      \<and> passesFilters srch raw w2
      \<and> maxJobs srch \<le> countByCountry (JOBS (addListing env raw w2)) (country srch)"
    for start page w w1 w2 earlier raw rest
  proof -
    from h have "listingLoop env srch (raw # rest) w2 = (True, addListing env raw w2)"
      by (intro one) simp
    with h have "listingLoop env srch (parseMarkdown page srch) w1 = (True, addListing env raw w2)"
      by (simp add: listingLoop_append)
    with h show ?thesis by (subst pageLoop.simps) simp
  qed
  assume h: "country srch = ''Belgium'' \<and> maxJobs srch = 2 \<and> JOBS w = []
    \<and> fetchText env (searchUrl srch 0) 1 w = (Inr page, w1)
    \<and> str_includes page ''Markdown Content:''
    \<and> parseMarkdown page srch = [r1, r2, r3]
    \<and> validListing srch r1 \<and> validListing srch r2 \<and> validListing srch r3
    \<and> distinct [canonicalUrl (jobUrl r1), canonicalUrl (jobUrl r2), canonicalUrl (jobUrl r3)]"
  let ?c1 = "canonicalUrl (jobUrl r1)" and ?c2 = "canonicalUrl (jobUrl r2)"
  let ?wA = "addListing env r1 w1"
  let ?wB = "addListing env r2 ?wA"
  from h have eq: "fetchText env (searchUrl srch 0) 1 w = (Inr page, w1)" by blast
  have "JOBS w1 = JOBS w"
    using JOBS_fetchText [of env "searchUrl srch 0" 1 w] by (simp only: eq snd_conv)
  with h have j1: "JOBS w1 = []" by simp
  then have fresh1: "\<not> mapHas (JOBS w1) ?c1" by (simp add: mapHas_def)
  from fresh1 obtain e1 where jA: "JOBS ?wA = JOBS w1 @ [(?c1, e1)]"
    and cA: "job_country e1 = countryGuess r1"
    by (rule JOBS_addListing_fresh)
  from h have val1: "validListing srch r1" and val2: "validListing srch r2"
    and mx: "maxJobs srch = 2"
    and ne: "canonicalUrl (jobUrl r1) \<noteq> canonicalUrl (jobUrl r2)"
    by simp_all
  from val1 have v1: "str_includes (toLowerCase (countryGuess r1)) (toLowerCase (country srch))"
    by (simp add: validListing_def)
  from val2 have v2: "str_includes (toLowerCase (countryGuess r2)) (toLowerCase (country srch))"
    by (simp add: validListing_def)
  have p1: "passesFilters srch r1 w1"
    using val1 j1 by (simp add: passesFilters_def mapHas_def mapSize_def)
  have countA: "countByCountry (JOBS ?wA) (country srch) = 1"
    using jA j1 cA v1 countByCountry_snoc [of "[]" ?c1 e1 "country srch"]
    by (simp add: countByCountry_def)
  have fresh2: "\<not> mapHas (JOBS ?wA) ?c2" using ne jA j1 by (simp add: mapHas_def)
  have p2: "passesFilters srch r2 ?wA"
    using val2 ne jA j1 by (simp add: passesFilters_def mapHas_def mapSize_def)
  from fresh2 obtain e2 where jB: "JOBS ?wB = JOBS ?wA @ [(?c2, e2)]"
    and cB: "job_country e2 = countryGuess r2"
    by (rule JOBS_addListing_fresh)
  have countB: "countByCountry (JOBS ?wB) (country srch) = 2"
    using jB cB v2 countA countByCountry_snoc [of "JOBS ?wA" ?c2 e2 "country srch"]
    by simp
  have l1: "listingLoop env srch [r1] w1 = (False, ?wA)"
    using listingLoop_accept [OF p1, of env "[]"] countA mx by (simp add: listingLoop.simps)
  from h have inc: "str_includes page ''Markdown Content:''"
    and parsed: "parseMarkdown page srch = [r1] @ r2 # [r3]"
    by simp_all
  have zero: "0 \<le> MAX_START" by simp
  have cap: "maxJobs srch \<le> countByCountry (JOBS ?wB) (country srch)"
    using countB mx by simp
  have fin: "pageLoop env srch 0 w = ?wB"
    using two [of 0 w page w1 "[r1]" r2 "[r3]" ?wA] zero eq inc parsed l1 p2 cap by blast
  show "processSearch env srch w = ?wB" by (simp add: processSearch_def fin)
  show "map fst (JOBS (processSearch env srch w)) = [?c1, ?c2]"
    by (simp add: processSearch_def fin jB jA j1)
qed

text \<open>
  The witness is a page with three listings in Belgium: the search for Belgium with a cap
  of two ends with the first two as entries, after the request for the page and the two
  requests for their details.
\<close>

theorem processSearch_returns_at_cap_witness:
  "country belgiumSearch = ''Belgium'' \<and> maxJobs belgiumSearch = 2 \<and> JOBS initialWorld = []
   \<and> fetchText capEnv (searchUrl belgiumSearch 0) 1 initialWorld = (Inr capPage, capWorld1)
   \<and> str_includes capPage ''Markdown Content:''
   \<and> parseMarkdown capPage belgiumSearch = [capRaw1, capRaw2, capRaw3]
   \<and> validListing belgiumSearch capRaw1 \<and> validListing belgiumSearch capRaw2
   \<and> validListing belgiumSearch capRaw3
   \<and> distinct [canonicalUrl (jobUrl capRaw1), canonicalUrl (jobUrl capRaw2),
                 canonicalUrl (jobUrl capRaw3)]
   \<and> processSearch capEnv belgiumSearch initialWorld
       = addListing capEnv capRaw2 (addListing capEnv capRaw1 capWorld1)
   \<and> map fst (JOBS (processSearch capEnv belgiumSearch initialWorld))
       = [''https://linkedin.com/jobs/view/101'', ''https://linkedin.com/jobs/view/102'']
   \<and> requests (processSearch capEnv belgiumSearch initialWorld)
       = [searchUrl belgiumSearch 0,
          ''https://r.jina.ai/https://linkedin.com/jobs/view/101?refId=a'',
          ''https://r.jina.ai/https://linkedin.com/jobs/view/102?refId=b'']
   \<and> passesFilters belgiumSearch capRaw2 (addListing capEnv capRaw1 capWorld1)
   \<and> maxJobs belgiumSearch
       \<le> countByCountry (JOBS (addListing capEnv capRaw2 (addListing capEnv capRaw1 capWorld1)))
            (country belgiumSearch)
   \<and> listingLoop capEnv belgiumSearch [capRaw2, capRaw3] (addListing capEnv capRaw1 capWorld1)
       = (True, addListing capEnv capRaw2 (addListing capEnv capRaw1 capWorld1))"
proof -
  let ?wA = "addListing capEnv capRaw1 capWorld1"
  let ?wB = "addListing capEnv capRaw2 ?wA"
  have a1: "country belgiumSearch = ''Belgium''" by (simp add: belgiumSearch_def)
  have a2: "maxJobs belgiumSearch = 2" by (simp add: belgiumSearch_def)
  have a3: "JOBS initialWorld = []" by (simp add: initialWorld_def)
  have a4: "fetchText capEnv (searchUrl belgiumSearch 0) 1 initialWorld = (Inr capPage, capWorld1)"
    by code_simp
  have a5: "str_includes capPage ''Markdown Content:''" by code_simp
  have a6: "parseMarkdown capPage belgiumSearch = [capRaw1, capRaw2, capRaw3]" by code_simp
  have a7: "validListing belgiumSearch capRaw1" by code_simp
  have a8: "validListing belgiumSearch capRaw2" by code_simp
  have a9: "validListing belgiumSearch capRaw3" by code_simp
  have a10: "distinct [canonicalUrl (jobUrl capRaw1), canonicalUrl (jobUrl capRaw2),
                       canonicalUrl (jobUrl capRaw3)]"
    by code_simp
  have c1: "canonicalUrl (jobUrl capRaw1) = ''https://linkedin.com/jobs/view/101''" by code_simp
  have c2: "canonicalUrl (jobUrl capRaw2) = ''https://linkedin.com/jobs/view/102''" by code_simp
  have b1: "passesFilters belgiumSearch capRaw2 ?wA" by code_simp
  have b2: "maxJobs belgiumSearch \<le> countByCountry (JOBS ?wB) (country belgiumSearch)"
    by code_simp
  have r: "requests ?wB
             = [searchUrl belgiumSearch 0,
                ''https://r.jina.ai/https://linkedin.com/jobs/view/101?refId=a'',
                ''https://r.jina.ai/https://linkedin.com/jobs/view/102?refId=b'']"
    by code_simp
  have three: "processSearch capEnv belgiumSearch initialWorld = ?wB
               \<and> map fst (JOBS (processSearch capEnv belgiumSearch initialWorld))
                   = [canonicalUrl (jobUrl capRaw1), canonicalUrl (jobUrl capRaw2)]"
    using processSearch_returns_at_cap [where srch = belgiumSearch and env = capEnv
        and w = initialWorld and ?w1.0 = capWorld1 and page = capPage
        and ?r1.0 = capRaw1 and ?r2.0 = capRaw2 and ?r3.0 = capRaw3]
      a1 a2 a3 a4 a5 a6 a7 a8 a9 a10
    by blast
  have one: "listingLoop capEnv belgiumSearch [capRaw2, capRaw3] ?wA = (True, ?wB)"
    using processSearch_returns_at_cap [where srch = belgiumSearch and env = capEnv
        and raw = capRaw2 and w = ?wA and rest = "[capRaw3]"] b1 b2
    by blast
  from three have p: "processSearch capEnv belgiumSearch initialWorld = ?wB" by blast
  from three have k0: "map fst (JOBS (processSearch capEnv belgiumSearch initialWorld))
                         = [canonicalUrl (jobUrl capRaw1), canonicalUrl (jobUrl capRaw2)]"
    by blast
  have k: "map fst (JOBS (processSearch capEnv belgiumSearch initialWorld))
             = [''https://linkedin.com/jobs/view/101'', ''https://linkedin.com/jobs/view/102'']"
    using k0 unfolding c1 c2 .
  from r p have r': "requests (processSearch capEnv belgiumSearch initialWorld)
             = [searchUrl belgiumSearch 0,
                ''https://r.jina.ai/https://linkedin.com/jobs/view/101?refId=a'',
                ''https://r.jina.ai/https://linkedin.com/jobs/view/102?refId=b'']"
    by (simp only:)
  from a1 a2 a3 a4 a5 a6 a7 a8 a9 a10 p k r' b1 b2 one show ?thesis by blast
qed

subsection \<open>The keys of the map and the output of \<^verbatim>\<open>main\<close>\<close>

lemma split_go_single_hd:
  "hd (split_go [c] cur s) = rev cur @ takeWhile (\<lambda>d. d \<noteq> c) s"
  by (induction s arbitrary: cur) auto

lemma canonicalUrl_takeWhile: "canonicalUrl url = takeWhile (\<lambda>c. c \<noteq> CHR ''?'') url"
  by (simp add: canonicalUrl_def split_def split_go_single_hd)

lemma canonicalUrl_no_query: "CHR ''?'' \<notin> set (canonicalUrl url)"
  by (auto simp: canonicalUrl_takeWhile dest: set_takeWhileD)

lemma map_fst_mapSet:
  "map fst (mapSet m k v) = (if k \<in> set (map fst m) then map fst m else map fst m @ [k])"
proof (induction m)
  case Nil
  then show ?case by simp
next
  case (Cons p m)
  obtain k' v' where p: "p = (k', v')" by (cases p)
  show ?case using Cons.IH by (cases "k' = k") (force simp: p)+
qed

lemma set_mapSet: "set (mapSet m k v) \<subseteq> insert (k, v) (set m)"
  by (induction m) (auto split: if_splits)

lemma wellKeyed_mapSet:
  assumes "wellKeyed m" and "job_id e = k" and "job_applyUrl e = k" and "CHR ''?'' \<notin> set k"
  shows "wellKeyed (mapSet m k e)"
proof -
  have "distinct (map fst (mapSet m k e))"
    using assms(1) by (simp add: wellKeyed_def map_fst_mapSet)
  moreover have "list_all (\<lambda>(k, e). job_id e = k \<and> job_applyUrl e = k \<and> CHR ''?'' \<notin> set k)
                   (mapSet m k e)"
    using assms set_mapSet [of m k e] by (auto simp: wellKeyed_def list_all_iff)
  ultimately show ?thesis by (simp add: wellKeyed_def)
qed

lemma wellKeyed_addListing:
  "wellKeyed (JOBS w) \<Longrightarrow> wellKeyed (JOBS (addListing env raw w))"
  by (simp add: JOBS_addListing Let_def wellKeyed_mapSet canonicalUrl_no_query)

lemma wellKeyed_listingLoop:
  "wellKeyed (JOBS w) \<Longrightarrow> wellKeyed (JOBS (snd (listingLoop env srch xs w)))"
proof (induction xs arbitrary: w)
  case Nil
  then show ?case by (simp add: listingLoop.simps)
next
  case (Cons raw xs)
  from Cons.prems have "wellKeyed (JOBS (addListing env raw w))"
    by (rule wellKeyed_addListing)
  with Cons show ?case by (simp add: listingLoop.simps Let_def)
qed

lemma wellKeyed_pageLoop:
  "wellKeyed (JOBS w) \<Longrightarrow> wellKeyed (JOBS (pageLoop env srch start w))"
proof (induction env srch start w rule: pageLoop.induct)
  case (1 env srch start w)
  obtain res w1 where f: "fetchText env (searchUrl srch start) 1 w = (res, w1)"
    by (cases "fetchText env (searchUrl srch start) 1 w")
  have j1: "JOBS w1 = JOBS w"
    using JOBS_fetchText [of env "searchUrl srch start" 1 w] by (simp only: f snd_conv)
  with "1.prems" have k1: "wellKeyed (JOBS w1)" by simp
  show ?case
  proof (cases "start \<le> MAX_START")
    case False
    then show ?thesis using "1.prems" by (subst pageLoop.simps) simp
  next
    case True
    show ?thesis
    proof (cases res)
      case (Inl e)
      then show ?thesis using True f k1 by (subst pageLoop.simps) simp
    next
      case (Inr page)
      obtain flag w2 where l: "listingLoop env srch (parseMarkdown page srch) w1 = (flag, w2)"
        by (cases "listingLoop env srch (parseMarkdown page srch) w1")
      have k2: "wellKeyed (JOBS w2)"
        using wellKeyed_listingLoop [OF k1, of env srch "parseMarkdown page srch"]
        by (simp only: l snd_conv)
      show ?thesis
      proof (cases "str_includes page ''Markdown Content:'' \<and> parseMarkdown page srch \<noteq> []
                    \<and> \<not> flag")
        case False
        then show ?thesis using True f Inr l k1 k2
          by (subst pageLoop.simps) (auto simp: Let_def)
      next
        case go: True
        have "wellKeyed (JOBS (pageLoop env srch (start + 25) (delay 1400 w2)))"
        proof (rule "1.IH" [OF True f [symmetric] Inr])
          show "\<not> \<not> str_includes page ''Markdown Content:''" using go by simp
          show "parseMarkdown page srch = parseMarkdown page srch" by (rule refl)
          show "parseMarkdown page srch \<noteq> []" using go by simp
          show "(False, w2) = listingLoop env srch (parseMarkdown page srch) w1"
            using l go by simp
          show "False = False" by (rule refl)
          show "wellKeyed (JOBS (delay 1400 w2))" using k2 by simp
        qed
        then show ?thesis using True f Inr l go
          by (subst pageLoop.simps) (simp add: Let_def)
      qed
    qed
  qed
qed

lemma wellKeyed_mainLoop:
  "wellKeyed (JOBS w) \<Longrightarrow> wellKeyed (JOBS (mainLoop env searches w))"
proof (induction searches arbitrary: w)
  case Nil
  then show ?case by simp
next
  case (Cons srch searches)
  from Cons.prems have "wellKeyed (JOBS (delay 2000 (processSearch env srch w)))"
    by (simp add: processSearch_def wellKeyed_pageLoop)
  with Cons show ?case by simp
qed

lemma wellKeyed_initialWorld: "wellKeyed (JOBS initialWorld)"
  by (simp add: wellKeyed_def initialWorld_def)

lemma set_insertSorted: "set (insertSorted f x ys) = insert x (set ys)"
  by (induction ys) auto

lemma set_arraySort: "set (arraySort f xs) = set xs"
  by (induction xs) (simp_all add: arraySort_def set_insertSorted)

lemma distinct_map_insertSorted:
  "distinct (map g (insertSorted f x ys)) \<longleftrightarrow> g x \<notin> g ` set ys \<and> distinct (map g ys)"
  by (induction ys) (auto simp: set_insertSorted)

lemma distinct_map_arraySort: "distinct (map g (arraySort f xs)) \<longleftrightarrow> distinct (map g xs)"
  by (induction xs) (simp_all add: arraySort_def distinct_map_insertSorted set_arraySort [unfolded arraySort_def])

lemma jobs_main:
  "jobs (fst (main env))
     = arraySort (compareJobs env) (map snd (JOBS (mainLoop env SEARCHES initialWorld)))"
  by (simp add: main_def Let_def readClock_def)

lemma wellKeyed_ids: "wellKeyed m \<Longrightarrow> map job_id (map snd m) = map fst m"
  by (induction m) (auto simp: wellKeyed_def)

text \<open>
  Claim C5. In the output of every run the \<^verbatim>\<open>id\<close> values are pairwise different, and
  the \<^verbatim>\<open>id\<close> of every entry is its \<^verbatim>\<open>applyUrl\<close> and holds no query string. The
  canonical URL of a listing is its URL up to the first question mark, so
  \<^verbatim>\<open>https://www.linkedin.com/jobs/view/123?refId=abc\<close> becomes
  \<^verbatim>\<open>https://www.linkedin.com/jobs/view/123\<close>; a listing that passes the filters is
  appended under this key, which is the \<^verbatim>\<open>id\<close> and the \<^verbatim>\<open>applyUrl\<close> of its entry. A
  listing whose canonical URL is already a key is skipped: the loop goes on with the next
  listing in the same world, so no error arises and the stored entry is not touched.
\<close>

theorem job_ids_unique_and_canonical:
  "distinct (map job_id (jobs (fst (main env))))
   \<and> (\<forall>e \<in> set (jobs (fst (main env))).
         job_applyUrl e = job_id e \<and> CHR ''?'' \<notin> set (job_id e))
   \<and> canonicalUrl url = takeWhile (\<lambda>c. c \<noteq> CHR ''?'') url
   \<and> canonicalUrl ''https://www.linkedin.com/jobs/view/123?refId=abc''
       = ''https://www.linkedin.com/jobs/view/123''
   \<and> (passesFilters srch raw w \<longrightarrow>
        (\<exists>entry. JOBS (addListing env raw w) = JOBS w @ [(canonicalUrl (jobUrl raw), entry)]
                 \<and> job_id entry = canonicalUrl (jobUrl raw)
                 \<and> job_applyUrl entry = canonicalUrl (jobUrl raw)))
   \<and> (mapHas (JOBS w) (canonicalUrl (jobUrl raw)) \<longrightarrow>
        listingLoop env srch (raw # rest) w = listingLoop env srch rest w)"
proof (intro conjI impI ballI)
  let ?m = "JOBS (mainLoop env SEARCHES initialWorld)"
  have wk: "wellKeyed ?m" by (rule wellKeyed_mainLoop [OF wellKeyed_initialWorld])
  have ids: "map job_id (map snd ?m) = map fst ?m" by (rule wellKeyed_ids [OF wk])
  from wk have "distinct (map fst ?m)" by (simp add: wellKeyed_def)
  then show "distinct (map job_id (jobs (fst (main env))))"
    by (simp only: jobs_main distinct_map_arraySort ids)
  show "job_applyUrl e = job_id e" if "e \<in> set (jobs (fst (main env)))" for e
    using that wk by (auto simp: jobs_main set_arraySort wellKeyed_def list_all_iff)
  show "CHR ''?'' \<notin> set (job_id e)" if "e \<in> set (jobs (fst (main env)))" for e
    using that wk by (auto simp: jobs_main set_arraySort wellKeyed_def list_all_iff)
  show "canonicalUrl url = takeWhile (\<lambda>c. c \<noteq> CHR ''?'') url"
    by (rule canonicalUrl_takeWhile)
  show "canonicalUrl ''https://www.linkedin.com/jobs/view/123?refId=abc''
          = ''https://www.linkedin.com/jobs/view/123''"
    by (simp add: canonicalUrl_takeWhile)
  show "\<exists>entry. JOBS (addListing env raw w) = JOBS w @ [(canonicalUrl (jobUrl raw), entry)]
                 \<and> job_id entry = canonicalUrl (jobUrl raw)
                 \<and> job_applyUrl entry = canonicalUrl (jobUrl raw)"
    if "passesFilters srch raw w"
  proof -
    from that have "\<not> mapHas (JOBS w) (canonicalUrl (jobUrl raw))"
      by (simp add: passesFilters_def)
    then show ?thesis by (rule JOBS_addListing_fresh) blast
  qed
  show "listingLoop env srch (raw # rest) w = listingLoop env srch rest w"
    if "mapHas (JOBS w) (canonicalUrl (jobUrl raw))"
    using that by (rule listingLoop_skip_duplicate)
qed

lemma codeCompare_anti: "(codeCompare a b < 0) = (0 < codeCompare b a)"
  by (induction a b rule: codeCompare.induct) auto

lemma codeCompare_trans:
  "codeCompare a b \<le> 0 \<Longrightarrow> codeCompare b c \<le> 0 \<Longrightarrow> codeCompare a c \<le> 0"
proof (induction a arbitrary: b c)
  case Nil
  then show ?case by (cases c) auto
next
  case (Cons x a)
  from Cons.prems(1) obtain y b' where b: "b = y # b'" by (cases b) auto
  from Cons.prems(2) b obtain z c' where c: "c = z # c'" by (cases c) auto
  show ?case
    using Cons.prems Cons.IH [of b' c'] unfolding b c
    by (auto split: if_splits)
qed

lemma codeCompare_consistent: "consistentComparator codeCompare"
  unfolding consistentComparator_def
  using codeCompare_anti codeCompare_trans by blast

lemma localeCompare_scriptedEnv: "localeCompare (scriptedEnv script) = codeCompare"
  by (simp add: scriptedEnv_def)

text \<open>
  The run of the witnesses, evaluated: four entries in two countries, inserted in another
  order than the output has.
\<close>

lemma main_sortEnv:
  "map (\<lambda>e. (job_country e, job_title e, job_id e, job_applyUrl e)) (jobs (fst (main sortEnv)))
   = [(''Belgium'', ''Brand Content Creator'', ''https://linkedin.com/jobs/view/102'',
       ''https://linkedin.com/jobs/view/102''),
      (''Belgium'', ''Digital Marketing Lead'', ''https://linkedin.com/jobs/view/103'',
       ''https://linkedin.com/jobs/view/103''),
      (''Belgium'', ''Social Media Manager'', ''https://linkedin.com/jobs/view/101'',
       ''https://linkedin.com/jobs/view/101''),
      (''Ireland'', ''Content Strategist'', ''https://linkedin.com/jobs/view/201'',
       ''https://linkedin.com/jobs/view/201'')]"
  by code_simp

theorem job_ids_unique_and_canonical_witness:
  "map job_id (jobs (fst (main sortEnv)))
     = [''https://linkedin.com/jobs/view/102'', ''https://linkedin.com/jobs/view/103'',
        ''https://linkedin.com/jobs/view/101'', ''https://linkedin.com/jobs/view/201'']
   \<and> map job_applyUrl (jobs (fst (main sortEnv)))
     = [''https://linkedin.com/jobs/view/102'', ''https://linkedin.com/jobs/view/103'',
        ''https://linkedin.com/jobs/view/101'', ''https://linkedin.com/jobs/view/201'']
   \<and> distinct (map job_id (jobs (fst (main sortEnv))))
   \<and> passesFilters belgiumSearch capRaw1 capWorld1
   \<and> map fst (JOBS (addListing capEnv capRaw1 capWorld1))
       = [''https://linkedin.com/jobs/view/101'']
   \<and> jobUrl dupRaw = ''https://linkedin.com/jobs/view/101?refId=zzz''
   \<and> mapHas (JOBS (addListing capEnv capRaw1 capWorld1)) (canonicalUrl (jobUrl dupRaw))
   \<and> listingLoop capEnv belgiumSearch [dupRaw] (addListing capEnv capRaw1 capWorld1)
       = (False, addListing capEnv capRaw1 capWorld1)"
proof -
  let ?js = "jobs (fst (main sortEnv))"
  let ?wA = "addListing capEnv capRaw1 capWorld1"
  have "map job_id ?js
          = map (\<lambda>q. fst (snd (snd q)))
              (map (\<lambda>e. (job_country e, job_title e, job_id e, job_applyUrl e)) ?js)"
    by (simp add: comp_def)
  also have "\<dots> = [''https://linkedin.com/jobs/view/102'', ''https://linkedin.com/jobs/view/103'',
                     ''https://linkedin.com/jobs/view/101'', ''https://linkedin.com/jobs/view/201'']"
    by (simp only: main_sortEnv) simp
  finally have a: "map job_id ?js
     = [''https://linkedin.com/jobs/view/102'', ''https://linkedin.com/jobs/view/103'',
        ''https://linkedin.com/jobs/view/101'', ''https://linkedin.com/jobs/view/201'']" .
  have "map job_applyUrl ?js
          = map (\<lambda>q. snd (snd (snd q)))
              (map (\<lambda>e. (job_country e, job_title e, job_id e, job_applyUrl e)) ?js)"
    by (simp add: comp_def)
  also have "\<dots> = [''https://linkedin.com/jobs/view/102'', ''https://linkedin.com/jobs/view/103'',
                     ''https://linkedin.com/jobs/view/101'', ''https://linkedin.com/jobs/view/201'']"
    by (simp only: main_sortEnv) simp
  finally have b: "map job_applyUrl ?js
     = [''https://linkedin.com/jobs/view/102'', ''https://linkedin.com/jobs/view/103'',
        ''https://linkedin.com/jobs/view/101'', ''https://linkedin.com/jobs/view/201'']" .
  have c: "distinct (map job_id ?js)"
    using job_ids_unique_and_canonical [where env = sortEnv] by blast
  have p: "passesFilters belgiumSearch capRaw1 capWorld1" by code_simp
  have k: "map fst (JOBS ?wA) = [''https://linkedin.com/jobs/view/101'']" by code_simp
  have u: "jobUrl dupRaw = ''https://linkedin.com/jobs/view/101?refId=zzz''"
    by (simp add: dupRaw_def capRaw_def)
  have h: "mapHas (JOBS ?wA) (canonicalUrl (jobUrl dupRaw))" by code_simp
  have "listingLoop capEnv belgiumSearch (dupRaw # []) ?wA = listingLoop capEnv belgiumSearch [] ?wA"
    using job_ids_unique_and_canonical [where env = capEnv and w = ?wA and raw = dupRaw
        and srch = belgiumSearch and rest = "[]"] h by blast
  then have l: "listingLoop capEnv belgiumSearch [dupRaw] ?wA = (False, ?wA)"
    by (simp add: listingLoop.simps)
  from a b c p k u h l show ?thesis by blast
qed

lemma compareJobs_total:
  assumes "consistentComparator (localeCompare env)"
  shows "compareJobs env a b \<le> 0 \<or> compareJobs env b a \<le> 0"
proof -
  let ?c = "localeCompare env"
  from assms have anti: "(?c x y < 0) = (0 < ?c y x)" for x y
    unfolding consistentComparator_def by blast
  show ?thesis
    using anti [of "job_country a" "job_country b"] anti [of "job_country b" "job_country a"]
      anti [of "job_title a" "job_title b"] anti [of "job_title b" "job_title a"]
    by (auto simp: compareJobs_def Let_def)
qed

lemma compareJobs_trans:
  assumes "consistentComparator (localeCompare env)"
      and "compareJobs env a b \<le> 0" and "compareJobs env b c \<le> 0"
  shows "compareJobs env a c \<le> 0"
proof -
  let ?c = "localeCompare env"
  from assms(1) have anti: "(?c x y < 0) = (0 < ?c y x)" for x y
    unfolding consistentComparator_def by blast
  from assms(1) have tr0: "\<forall>x y z. ?c x y \<le> 0 \<and> ?c y z \<le> 0 \<longrightarrow> ?c x z \<le> 0"
    unfolding consistentComparator_def by (rule conjunct2)
  have tr: "?c x z \<le> 0" if "?c x y \<le> 0" and "?c y z \<le> 0" for x y z
    using tr0 that by blast
  let ?A = "job_country a" and ?B = "job_country b" and ?C = "job_country c"
  from assms(2) have ab: "?c ?A ?B \<le> 0"
    by (auto simp: compareJobs_def Let_def split: if_splits)
  from assms(3) have bc: "?c ?B ?C \<le> 0"
    by (auto simp: compareJobs_def Let_def split: if_splits)
  from tr [OF ab bc] have ac: "?c ?A ?C \<le> 0" .
  show ?thesis
  proof (cases "?c ?A ?C = 0")
    case False
    with ac show ?thesis by (simp add: compareJobs_def Let_def)
  next
    case True
    then have ca: "?c ?C ?A \<le> 0" using anti [of ?A ?C] by simp
    have "?c ?B ?A \<le> 0" by (rule tr [OF bc ca])
    then have ab0: "?c ?A ?B = 0" using ab anti [of ?A ?B] by simp
    have "?c ?C ?B \<le> 0" by (rule tr [OF ca ab])
    then have bc0: "?c ?B ?C = 0" using bc anti [of ?B ?C] by simp
    from assms(2) ab0 have t1: "?c (job_title a) (job_title b) \<le> 0"
      by (simp add: compareJobs_def Let_def)
    from assms(3) bc0 have t2: "?c (job_title b) (job_title c) \<le> 0"
      by (simp add: compareJobs_def Let_def)
    from tr [OF t1 t2] True show ?thesis by (simp add: compareJobs_def Let_def)
  qed
qed

lemma sorted_insertSorted:
  assumes tot: "\<And>a b. f a b \<le> 0 \<or> f b a \<le> 0"
      and tr: "\<And>a b c. f a b \<le> 0 \<Longrightarrow> f b c \<le> 0 \<Longrightarrow> f a c \<le> 0"
      and "sorted_wrt (\<lambda>a b. f a b \<le> 0) ys"
  shows "sorted_wrt (\<lambda>a b. f a b \<le> (0::int)) (insertSorted f x ys)"
  using assms(3)
proof (induction ys)
  case Nil
  then show ?case by simp
next
  case (Cons y ys)
  from Cons.prems have below: "\<forall>z \<in> set ys. f y z \<le> 0" and rest: "sorted_wrt (\<lambda>a b. f a b \<le> 0) ys"
    by simp_all
  show ?case
  proof (cases "f x y \<le> 0")
    case True
    from below have "\<forall>z \<in> set ys. f x z \<le> 0" using tr [OF True] by blast
    with True below rest show ?thesis by simp
  next
    case False
    with tot [of x y] have yx: "f y x \<le> 0" by simp
    have "sorted_wrt (\<lambda>a b. f a b \<le> 0) (insertSorted f x ys)" by (rule Cons.IH [OF rest])
    with False yx below show ?thesis by (simp add: set_insertSorted)
  qed
qed

lemma sorted_arraySort:
  assumes "\<And>a b. f a b \<le> 0 \<or> f b a \<le> 0"
      and "\<And>a b c. f a b \<le> 0 \<Longrightarrow> f b c \<le> 0 \<Longrightarrow> f a c \<le> 0"
  shows "sorted_wrt (\<lambda>a b. f a b \<le> (0::int)) (arraySort f xs)"
proof (induction xs)
  case Nil
  then show ?case by (simp add: arraySort_def)
next
  case (Cons x xs)
  have "sorted_wrt (\<lambda>a b. f a b \<le> 0) (insertSorted f x (arraySort f xs))"
    using assms(1) assms(2) Cons.IH by (rule sorted_insertSorted)
  then show ?case by (simp add: arraySort_def)
qed

lemma sorted_wrt_compareJobs:
  "sorted_wrt (\<lambda>a b. compareJobs env a b \<le> 0) js
     \<Longrightarrow> sortedByCountryThenTitle (localeCompare env) js"
proof (induction "localeCompare env" js rule: sortedByCountryThenTitle.induct)
  case (1 a b js)
  from "1.prems" have ab: "compareJobs env a b \<le> 0"
    and rest: "sorted_wrt (\<lambda>a b. compareJobs env a b \<le> 0) (b # js)"
    by simp_all
  from ab have "localeCompare env (job_country a) (job_country b) \<le> 0
      \<and> (localeCompare env (job_country a) (job_country b) = 0
           \<longrightarrow> localeCompare env (job_title a) (job_title b) \<le> 0)"
    by (auto simp: compareJobs_def Let_def split: if_splits)
  with "1.hyps" [OF rest] show ?case by simp
qed simp_all

text \<open>
  Claim C8. For a locale comparison that is a consistent comparison function, the
  \<^verbatim>\<open>jobs\<close> of the output are sorted: every entry and its successor are in order by
  country, and by title when their countries compare equal.
\<close>

theorem main_output_sorted:
  assumes "consistentComparator (localeCompare env)"
  shows "sortedByCountryThenTitle (localeCompare env) (jobs (fst (main env)))"
proof -
  have srt: "sorted_wrt (\<lambda>a b. compareJobs env a b \<le> 0) (jobs (fst (main env)))"
    unfolding jobs_main
  proof (rule sorted_arraySort)
    show "compareJobs env a b \<le> 0 \<or> compareJobs env b a \<le> 0" for a b
      by (rule compareJobs_total [OF assms])
    show "compareJobs env a c \<le> 0"
      if "compareJobs env a b \<le> 0" and "compareJobs env b c \<le> 0" for a b c
      using that by (rule compareJobs_trans [OF assms])
  qed
  then show ?thesis by (rule sorted_wrt_compareJobs)
qed

theorem main_output_sorted_witness:
  "consistentComparator (localeCompare sortEnv)
   \<and> sortedByCountryThenTitle (localeCompare sortEnv) (jobs (fst (main sortEnv)))
   \<and> map (\<lambda>e. (job_country e, job_title e)) (jobs (fst (main sortEnv)))
       = [(''Belgium'', ''Brand Content Creator''), (''Belgium'', ''Digital Marketing Lead''),
          (''Belgium'', ''Social Media Manager''), (''Ireland'', ''Content Strategist'')]"
proof -
  have h: "consistentComparator (localeCompare sortEnv)"
    by (simp add: sortEnv_def localeCompare_scriptedEnv codeCompare_consistent)
  have s: "sortedByCountryThenTitle (localeCompare sortEnv) (jobs (fst (main sortEnv)))"
    by (rule main_output_sorted [OF h])
  have "map (\<lambda>e. (job_country e, job_title e)) (jobs (fst (main sortEnv)))
          = map (\<lambda>q. (fst q, fst (snd q)))
              (map (\<lambda>e. (job_country e, job_title e, job_id e, job_applyUrl e))
                 (jobs (fst (main sortEnv))))"
    by (simp add: comp_def)
  also have "\<dots> = [(''Belgium'', ''Brand Content Creator''),
                     (''Belgium'', ''Digital Marketing Lead''),
                     (''Belgium'', ''Social Media Manager''),
                     (''Ireland'', ''Content Strategist'')]"
    by (simp only: main_sortEnv) simp
  finally have m: "map (\<lambda>e. (job_country e, job_title e)) (jobs (fst (main sortEnv)))
       = [(''Belgium'', ''Brand Content Creator''), (''Belgium'', ''Digital Marketing Lead''),
          (''Belgium'', ''Social Media Manager''), (''Ireland'', ''Content Strategist'')]" .
  from h s m show ?thesis by blast
qed

end
